theory Spec2Isabelle
  imports Complex_Main
begin

section \<open>Data model: the rows of the datastore\<close>

text \<open>
  The server (\<^verbatim>\<open>server/index.js\<close>) keeps all of its state in six tables of a relational
  datastore: \<^verbatim>\<open>item\<close>, \<^verbatim>\<open>item_barcode\<close>, \<^verbatim>\<open>pos_transaction\<close>, \<^verbatim>\<open>transaction_line\<close>,
  \<^verbatim>\<open>payment\<close> and \<^verbatim>\<open>refund\<close>. A row is a record holding the columns the handlers read or
  write (an item's name, cost and pack size and the \<^verbatim>\<open>created_at\<close> stamps are never read by
  the transaction handlers and are left out). Field names carry a one-letter prefix of their
  table, since several tables share column names.

  Numbers. JavaScript numbers are modelled as exact rationals: \<^verbatim>\<open>parseFloat\<close> of a stored
  number is that number, and sums and products are exact. Quantities are integers
  (\<^verbatim>\<open>parseInt\<close> of one is itself, and a stored quantity is never missing, so that
  \<^verbatim>\<open>item.quantity || 0\<close> is the quantity). Row ids, which the datastore generates, are natural numbers
  drawn from one counter. The datastore keeps a value exactly as the handler passes it.
\<close>

datatype status = Open | Finalized | Refunded

datatype error =
    InvalidInput          \<comment> \<open>HTTP 400 for a malformed request\<close>
  | NotFound              \<comment> \<open>HTTP 404\<close>
  | InvalidState          \<comment> \<open>HTTP 400 for an operation the status forbids\<close>
  | InsufficientPayment   \<comment> \<open>HTTP 400 'Insufficient cash amount'\<close>
  | InternalError         \<comment> \<open>HTTP 500\<close>

record item =
  i_id :: nat
  i_price :: rat
  i_tax_rate :: rat
  i_quantity :: int
  i_is_active :: bool

record item_barcode =
  b_barcode :: string
  b_item_id :: nat

record pos_transaction =
  t_id :: nat
  t_status :: status
  t_subtotal :: rat
  t_tax :: rat
  t_total :: rat

record transaction_line =
  l_id :: nat
  l_transaction_id :: nat
  l_item_id :: nat
  l_quantity :: int
  l_unit_price :: rat
  l_tax_rate :: rat
  l_line_total :: rat
  l_refunded_by :: "nat option"

record payment =
  p_id :: nat
  p_transaction_id :: nat
  p_method :: string
  p_amount :: rat

record refund =
  r_id :: nat
  r_original_tx :: nat
  r_refund_tx :: nat

record store =
  tbl_item :: "item list"
  tbl_item_barcode :: "item_barcode list"
  tbl_pos_transaction :: "pos_transaction list"
  tbl_transaction_line :: "transaction_line list"
  tbl_payment :: "payment list"
  tbl_refund :: "refund list"
  next_id :: nat

section \<open>Datastore queries\<close>

text \<open>
  \<^verbatim>\<open>.single()\<close> yields the row when the query selects exactly one, and an error
  otherwise. \<^verbatim>\<open>.update(v).eq(col, x)\<close> rewrites every row the filter selects.
\<close>

fun single :: "'a list \<Rightarrow> 'a option" where
  "single [r] = Some r"
| "single rows = None"

definition update_where :: "('a \<Rightarrow> bool) \<Rightarrow> ('a \<Rightarrow> 'a) \<Rightarrow> 'a list \<Rightarrow> 'a list" where
  "update_where p f rows = map (\<lambda>r. if p r then f r else r) rows"

definition transaction_by_id :: "store \<Rightarrow> nat \<Rightarrow> pos_transaction option" where
  "transaction_by_id s transactionId =
     single (filter (\<lambda>t. t_id t = transactionId) (tbl_pos_transaction s))"

definition item_by_id :: "item list \<Rightarrow> nat \<Rightarrow> item option" where
  "item_by_id items itemId = single (filter (\<lambda>i. i_id i = itemId) items)"

definition lines_of :: "store \<Rightarrow> nat \<Rightarrow> transaction_line list" where
  "lines_of s transactionId =
     filter (\<lambda>l. l_transaction_id l = transactionId) (tbl_transaction_line s)"

section \<open>Money arithmetic\<close>

text \<open>
  \<^verbatim>\<open>x.toFixed(2)\<close>: the decimal with two fraction digits nearest to \<open>x\<close>, the larger one
  on a tie, computed on the magnitude with the sign put back. Its result, a string, is read
  back as the number it denotes.
\<close>

definition toFixed2 :: "rat \<Rightarrow> rat" where
  "toFixed2 x =
     (if x < 0 then - (of_int \<lfloor>(- x) * 100 + 1 / 2\<rfloor> / 100)
      else of_int \<lfloor>x * 100 + 1 / 2\<rfloor> / 100)"

definition lineSubtotal :: "transaction_line \<Rightarrow> rat" where
  "lineSubtotal line = l_unit_price line * of_int (l_quantity line)"

definition lineTax :: "transaction_line \<Rightarrow> rat" where
  "lineTax line = lineSubtotal line * l_tax_rate line"

text \<open>The body of the \<^verbatim>\<open>forEach\<close> of the add-line handler, on its three accumulators.\<close>

definition add_line_totals :: "rat \<times> rat \<times> rat \<Rightarrow> transaction_line \<Rightarrow> rat \<times> rat \<times> rat" where
  "add_line_totals acc line =
     (case acc of (newSubtotal, newTax, newTotal) \<Rightarrow>
        (let lineTotal = lineSubtotal line + lineTax line
         in (newSubtotal + lineSubtotal line, newTax + lineTax line, newTotal + lineTotal)))"

text \<open>The body of the loop of the refund handler: the total adds the stored line total.\<close>

definition add_refund_totals :: "rat \<times> rat \<times> rat \<Rightarrow> transaction_line \<Rightarrow> rat \<times> rat \<times> rat" where
  "add_refund_totals acc line =
     (case acc of (refundSubtotal, refundTax, refundTotal) \<Rightarrow>
        (refundSubtotal + lineSubtotal line, refundTax + lineTax line,
         refundTotal + l_line_total line))"

section \<open>Strings\<close>

definition is_space :: "char \<Rightarrow> bool" where
  "is_space c = (c \<in> set [CHR '' '', CHR 0x09, CHR 0x0A, CHR 0x0B, CHR 0x0C, CHR 0x0D])"

definition trim :: "string \<Rightarrow> string" where
  "trim s = rev (dropWhile is_space (rev (dropWhile is_space s)))"

section \<open>Open a transaction\<close>

text \<open>\<^verbatim>\<open>POST /api/transactions\<close>.\<close>

definition createTransaction :: "store \<Rightarrow> (error + pos_transaction) \<times> store" where
  "createTransaction s =
     (let data = \<lparr>t_id = next_id s, t_status = Open, t_subtotal = 0, t_tax = 0, t_total = 0\<rparr>
      in (Inr data,
          s\<lparr>tbl_pos_transaction := tbl_pos_transaction s @ [data],
            next_id := Suc (next_id s)\<rparr>))"

section \<open>Add a line by barcode\<close>

text \<open>
  \<^verbatim>\<open>POST /api/transactions/:transactionId/lines\<close>. The quantity of the request body
  defaults to 1 when absent. The insert of the line is refused by the datastore when the
  transaction does not exist: \<^verbatim>\<open>transaction_line.transaction_id\<close> is a foreign key (the
  cancel handler relies on its cascade). The handler reads the status of the transaction
  nowhere.
\<close>

record add_line_response =
  a_line :: transaction_line
  a_transaction :: pos_transaction

definition addLine ::
  "store \<Rightarrow> nat \<Rightarrow> string \<Rightarrow> int option \<Rightarrow> (error + add_line_response) \<times> store" where
  "addLine s transactionId barcode quantity_opt =
     (let quantity = (case quantity_opt of None \<Rightarrow> 1 | Some q \<Rightarrow> q) in
      if barcode = [] then (Inl InvalidInput, s)  \<comment> \<open>400 'Barcode is required'\<close>
      else if quantity \<le> 0 then (Inl InvalidInput, s)  \<comment> \<open>400 'Invalid quantity'\<close>
      else
        (case single (filter (\<lambda>b. b_barcode b = trim barcode) (tbl_item_barcode s)) of
           None \<Rightarrow> (Inl NotFound, s)  \<comment> \<open>404 'Barcode not found'\<close>
         | Some barcodeData \<Rightarrow>
            (case item_by_id (tbl_item s) (b_item_id barcodeData) of
               None \<Rightarrow> (Inl NotFound, s)  \<comment> \<open>404 'Item is inactive'\<close>
             | Some itemCheck \<Rightarrow>
                if \<not> i_is_active itemCheck then (Inl NotFound, s)  \<comment> \<open>404 'Item is inactive'\<close>
                else
                  (case item_by_id (tbl_item s) (b_item_id barcodeData) of
                     None \<Rightarrow> (Inl NotFound, s)  \<comment> \<open>404 'Item not found'\<close>
                   | Some item \<Rightarrow>
                      (let unitPrice = i_price item;
                           taxRate = i_tax_rate item;
                           subtotal = unitPrice * of_int quantity;
                           tax = subtotal * taxRate;
                           lineTotal = subtotal + tax
                       in
                       if transactionId \<notin> set (map t_id (tbl_pos_transaction s))
                       then (Inl InternalError, s)  \<comment> \<open>500 'Failed to add item to transaction'\<close>
                       else
                         (let line = \<lparr>l_id = next_id s, l_transaction_id = transactionId,
                                      l_item_id = b_item_id barcodeData, l_quantity = quantity,
                                      l_unit_price = unitPrice, l_tax_rate = taxRate,
                                      l_line_total = lineTotal, l_refunded_by = None\<rparr>;
                              s1 = s\<lparr>tbl_transaction_line := tbl_transaction_line s @ [line],
                                     next_id := Suc (next_id s)\<rparr>
                          in
                          (case transaction_by_id s1 transactionId of
                             None \<Rightarrow> (Inl InternalError, s1)  \<comment> \<open>500 'Failed to fetch transaction'\<close>
                           | Some transaction \<Rightarrow>
                              (let allLines = lines_of s1 transactionId;
                                   (newSubtotal, newTax, newTotal) =
                                      foldl add_line_totals (0, 0, 0) allLines;
                                   s2 = s1\<lparr>tbl_pos_transaction :=
                                          update_where (\<lambda>t. t_id t = transactionId)
                                            (\<lambda>t. t\<lparr>t_subtotal := newSubtotal, t_tax := newTax,
                                                   t_total := newTotal\<rparr>)
                                            (tbl_pos_transaction s1)\<rparr>
                               in
                               (case transaction_by_id s2 transactionId of
                                  None \<Rightarrow> (Inl InternalError, s2)  \<comment> \<open>500 'Failed to update transaction totals'\<close>
                                | Some updatedTx \<Rightarrow>
                                   (Inr \<lparr>a_line = line, a_transaction = updatedTx\<rparr>, s2))))))))))"

section \<open>Finalize with a cash payment\<close>

text \<open>
  \<^verbatim>\<open>POST /api/transactions/:transactionId/finalize\<close>. The loop over the lines reads each
  item's row, computes \<^verbatim>\<open>Math.max(0, currentQuantity - soldQuantity)\<close> and writes it back.
  When the read or the write of an item's row fails, the handler logs the error and goes on
  with the next line. Which rows fail is not decided by the data, so the loop takes it as a
  parameter: \<open>item_error itemId\<close> holds when the datastore fails on that item's row during
  the request. A row that is absent fails the read as well. A missing cash amount takes
  the branch of a non-positive one; the model takes a number. The change is returned as
  \<^verbatim>\<open>change.toFixed(2)\<close>.
\<close>

fun decrease_quantities :: "(nat \<Rightarrow> bool) \<Rightarrow> item list \<Rightarrow> transaction_line list \<Rightarrow> item list" where
  "decrease_quantities item_error items [] = items"
| "decrease_quantities item_error items (line # rest) =
     (case item_by_id items (l_item_id line) of
        None \<Rightarrow> decrease_quantities item_error items rest
      | Some item \<Rightarrow>
         if item_error (l_item_id line) then decrease_quantities item_error items rest
         else
           (let currentQuantity = i_quantity item;
                soldQuantity = l_quantity line;
                newQuantity = max 0 (currentQuantity - soldQuantity)
            in decrease_quantities item_error
                 (update_where (\<lambda>i. i_id i = l_item_id line)
                    (\<lambda>i. i\<lparr>i_quantity := newQuantity\<rparr>) items)
                 rest))"

record finalize_response =
  f_transaction :: pos_transaction
  f_payment :: payment
  f_change :: rat

definition finalize ::
  "(nat \<Rightarrow> bool) \<Rightarrow> store \<Rightarrow> nat \<Rightarrow> rat \<Rightarrow> (error + finalize_response) \<times> store" where
  "finalize item_error s transactionId cashAmount =
     (if cashAmount \<le> 0 then (Inl InvalidInput, s)  \<comment> \<open>400 'Invalid cash amount'\<close>
      else
        (case transaction_by_id s transactionId of
           None \<Rightarrow> (Inl NotFound, s)  \<comment> \<open>404 'Transaction not found'\<close>
         | Some transaction \<Rightarrow>
            if t_status transaction \<noteq> Open
            then (Inl InvalidState, s)  \<comment> \<open>400 'Transaction is not open'\<close>
            else if cashAmount < t_total transaction
            then (Inl InsufficientPayment, s)  \<comment> \<open>400 'Insufficient cash amount'\<close>
            else
              (let s1 = s\<lparr>tbl_pos_transaction :=
                          update_where (\<lambda>t. t_id t = transactionId)
                            (\<lambda>t. t\<lparr>t_status := Finalized\<rparr>) (tbl_pos_transaction s)\<rparr>
               in
               (case transaction_by_id s1 transactionId of
                  None \<Rightarrow> (Inl InternalError, s1)  \<comment> \<open>500 'Failed to finalize transaction'\<close>
                | Some updatedTx \<Rightarrow>
                   (let payment = \<lparr>p_id = next_id s1, p_transaction_id = transactionId,
                                   p_method = ''cash'', p_amount = cashAmount\<rparr>;
                        s2 = s1\<lparr>tbl_payment := tbl_payment s1 @ [payment],
                               next_id := Suc (next_id s1)\<rparr>;
                        transactionLines = lines_of s2 transactionId;
                        s3 = s2\<lparr>tbl_item :=
                               decrease_quantities item_error (tbl_item s2) transactionLines\<rparr>;
                        change = cashAmount - t_total transaction
                    in (Inr \<lparr>f_transaction = updatedTx, f_payment = payment,
                              f_change = toFixed2 change\<rparr>, s3))))))"

section \<open>Refund lines of a finalized transaction\<close>

text \<open>
  \<^verbatim>\<open>POST /api/transactions/:transactionId/refund\<close>. The handler first tries to insert a
  refund row and, when the datastore answers with a unique-constraint violation (code
  23505), fetches the row that exists for the original transaction. A \<^verbatim>\<open>lineIds\<close> that is
  missing or not an array takes the branch of an empty one; the model takes a list. The
  loop that adds the refunded quantities back to the stock skips an item whose row fails,
  as the loop of finalize does. No other datastore call is taken to fail, unless the rows
  decide it (no row or several rows for \<^verbatim>\<open>.single()\<close>, a violated constraint).
\<close>

text \<open>
  Modelled from the spec: the unique constraint of the \<^verbatim>\<open>refund\<close> table, whose schema is
  not part of the sources. The spec keeps at most one refund row per original transaction,
  and the handler's comment names the constraint (\<^verbatim>\<open>handle unique constraint for partial
  refunds\<close>); the reversal transaction of the new row is always fresh, so only
  \<^verbatim>\<open>original_tx\<close> can collide. \<open>None\<close> is the violation.
\<close>

definition insert_refund :: "store \<Rightarrow> nat \<Rightarrow> nat \<Rightarrow> refund option \<times> store" where
  "insert_refund s original_tx refund_tx =
     (if original_tx \<in> set (map r_original_tx (tbl_refund s)) then (None, s)
      else
        (let row = \<lparr>r_id = next_id s, r_original_tx = original_tx, r_refund_tx = refund_tx\<rparr>
         in (Some row, s\<lparr>tbl_refund := tbl_refund s @ [row], next_id := Suc (next_id s)\<rparr>)))"

text \<open>The \<^verbatim>\<open>try\<close> block of the handler: insert, and on a violation fetch the existing row.\<close>

definition get_or_create_refund :: "store \<Rightarrow> nat \<Rightarrow> nat \<Rightarrow> refund option \<times> store" where
  "get_or_create_refund s transactionId refund_tx =
     (case insert_refund s transactionId refund_tx of
        (Some newRefundRecord, s') \<Rightarrow> (Some newRefundRecord, s')
      | (None, s') \<Rightarrow>
         (single (filter (\<lambda>r. r_original_tx r = transactionId) (tbl_refund s')), s'))"

fun mark_refunded :: "nat \<Rightarrow> transaction_line list \<Rightarrow> nat list \<Rightarrow> transaction_line list" where
  "mark_refunded refundId lines [] = lines"
| "mark_refunded refundId lines (lineId # rest) =
     mark_refunded refundId
       (update_where (\<lambda>l. l_id l = lineId) (\<lambda>l. l\<lparr>l_refunded_by := Some refundId\<rparr>) lines)
       rest"

fun increase_quantities :: "(nat \<Rightarrow> bool) \<Rightarrow> item list \<Rightarrow> transaction_line list \<Rightarrow> item list" where
  "increase_quantities item_error items [] = items"
| "increase_quantities item_error items (line # rest) =
     (case item_by_id items (l_item_id line) of
        None \<Rightarrow> increase_quantities item_error items rest
      | Some item \<Rightarrow>
         if item_error (l_item_id line) then increase_quantities item_error items rest
         else
           (let currentQuantity = i_quantity item;
                refundedQuantity = l_quantity line;
                newQuantity = currentQuantity + refundedQuantity
            in increase_quantities item_error
                 (update_where (\<lambda>i. i_id i = l_item_id line)
                    (\<lambda>i. i\<lparr>i_quantity := newQuantity\<rparr>) items)
                 rest))"

record refund_response =
  rr_refundAmount :: rat
  rr_originalTransaction :: pos_transaction
  rr_refundTransaction :: pos_transaction
  rr_isPartial :: bool

definition selected_lines :: "store \<Rightarrow> nat \<Rightarrow> nat list \<Rightarrow> transaction_line list" where
  "selected_lines s transactionId lineIds =
     filter (\<lambda>line. l_id line \<in> set lineIds) (lines_of s transactionId)"

definition refund_lines ::
  "(nat \<Rightarrow> bool) \<Rightarrow> store \<Rightarrow> nat \<Rightarrow> nat list \<Rightarrow> (error + refund_response) \<times> store" where
  "refund_lines item_error s transactionId lineIds =
     (if lineIds = [] then (Inl InvalidInput, s)  \<comment> \<open>400 'lineIds array is required'\<close>
      else
        (case transaction_by_id s transactionId of
           None \<Rightarrow> (Inl NotFound, s)  \<comment> \<open>404 'Transaction not found'\<close>
         | Some originalTransaction \<Rightarrow>
            if t_status originalTransaction \<noteq> Finalized
            then (Inl InvalidState, s)  \<comment> \<open>400 'Only finalized transactions can be refunded'\<close>
            else
              (let selectedLines = selected_lines s transactionId lineIds
               in
               if length selectedLines \<noteq> length lineIds
               then (Inl InvalidInput, s)  \<comment> \<open>400 'Some selected lines do not exist'\<close>
               else if filter (\<lambda>line. l_refunded_by line \<noteq> None) selectedLines \<noteq> []
               then (Inl InvalidInput, s)  \<comment> \<open>400 'Some selected lines have already been refunded'\<close>
               else
                 (let (refundSubtotal, refundTax, refundTotal) =
                        foldl add_refund_totals (0, 0, 0) selectedLines;
                      refundTransaction =
                        \<lparr>t_id = next_id s, t_status = Finalized,
                         t_subtotal = toFixed2 refundSubtotal, t_tax = toFixed2 refundTax,
                         t_total = toFixed2 refundTotal\<rparr>;
                      s1 = s\<lparr>tbl_pos_transaction := tbl_pos_transaction s @ [refundTransaction],
                             next_id := Suc (next_id s)\<rparr>;
                      (refundRecord_opt, s2) =
                        get_or_create_refund s1 transactionId (t_id refundTransaction)
                  in
                  (case refundRecord_opt of
                     None \<Rightarrow> (Inl InternalError, s2)  \<comment> \<open>500 'Failed to handle refund record'\<close>
                   | Some refundRecord \<Rightarrow>
                      (let refundId = r_id refundRecord;
                           s3 = s2\<lparr>tbl_transaction_line :=
                                  mark_refunded refundId (tbl_transaction_line s2) lineIds\<rparr>;
                           s4 = s3\<lparr>tbl_item :=
                                  increase_quantities item_error (tbl_item s3) selectedLines\<rparr>;
                           remainingLines = lines_of s4 transactionId;
                           allRefunded = list_all (\<lambda>line. l_refunded_by line \<noteq> None) remainingLines;
                           s5 = (if allRefunded
                                 then s4\<lparr>tbl_pos_transaction :=
                                        update_where (\<lambda>t. t_id t = transactionId)
                                          (\<lambda>t. t\<lparr>t_status := Refunded\<rparr>) (tbl_pos_transaction s4)\<rparr>
                                 else s4);
                           payment = \<lparr>p_id = next_id s5, p_transaction_id = t_id refundTransaction,
                                      p_method = ''cash'', p_amount = - toFixed2 refundTotal\<rparr>;
                           s6 = s5\<lparr>tbl_payment := tbl_payment s5 @ [payment],
                                  next_id := Suc (next_id s5)\<rparr>;
                           isPartial = list_ex (\<lambda>line. l_refunded_by line = None) remainingLines
                       in (Inr \<lparr>rr_refundAmount = toFixed2 refundTotal,
                                 rr_originalTransaction = originalTransaction,
                                 rr_refundTransaction = refundTransaction,
                                 rr_isPartial = isPartial\<rparr>, s6)))))))"

text \<open>
  The row the refund handler inserts for the reversal: the three sums over the selected
  lines, each through \<^verbatim>\<open>toFixed(2)\<close>.
\<close>

abbreviation reversal_of :: "store \<Rightarrow> nat \<Rightarrow> nat list \<Rightarrow> pos_transaction" where
  "reversal_of s transactionId lineIds \<equiv>
     \<lparr>t_id = next_id s, t_status = Finalized,
      t_subtotal = toFixed2 (sum_list (map lineSubtotal (selected_lines s transactionId lineIds))),
      t_tax = toFixed2 (sum_list (map lineTax (selected_lines s transactionId lineIds))),
      t_total = toFixed2 (sum_list (map l_line_total (selected_lines s transactionId lineIds)))\<rparr>"

section \<open>Constraints of the datastore and derived totals\<close>

text \<open>
  What the datastore guarantees of its tables: the primary keys of transactions and lines
  are unique, a refund row is unique in its original transaction, every generated id lies
  below the counter, and a line references a transaction that exists (foreign key).
\<close>

definition store_ok :: "store \<Rightarrow> bool" where
  "store_ok s =
     (distinct (map t_id (tbl_pos_transaction s)) \<and>
      distinct (map l_id (tbl_transaction_line s)) \<and>
      distinct (map r_original_tx (tbl_refund s)) \<and>
      list_all (\<lambda>t. t_id t < next_id s) (tbl_pos_transaction s) \<and>
      list_all (\<lambda>l. l_id l < next_id s \<and>
                     l_transaction_id l \<in> set (map t_id (tbl_pos_transaction s)))
        (tbl_transaction_line s) \<and>
      list_all (\<lambda>r. r_id r < next_id s \<and> r_refund_tx r < next_id s) (tbl_refund s))"


section \<open>A sale of the seeded catalogue\<close>

text \<open>
  The first two items of \<^verbatim>\<open>server/seed.js\<close> (Coca Cola at 2.99 and Chips at 3.49, both taxed
  at 8.75 percent) with the barcodes the seed script gives them, and the states a register
  goes through: a transaction is opened, one Coca Cola is scanned, and the sale is paid with
  5.00 in cash. No datastore call fails in these runs.
\<close>

definition seed_store :: store where
  "seed_store =
     \<lparr>tbl_item =
        [\<lparr>i_id = 0, i_price = 299 / 100, i_tax_rate = 875 / 10000, i_quantity = 24,
          i_is_active = True\<rparr>,
         \<lparr>i_id = 1, i_price = 349 / 100, i_tax_rate = 875 / 10000, i_quantity = 12,
          i_is_active = True\<rparr>],
      tbl_item_barcode =
        [\<lparr>b_barcode = ''123'', b_item_id = 0\<rparr>, \<lparr>b_barcode = ''456'', b_item_id = 1\<rparr>,
         \<lparr>b_barcode = ''999'', b_item_id = 0\<rparr>],
      tbl_pos_transaction = [], tbl_transaction_line = [], tbl_payment = [], tbl_refund = [],
      next_id = 2\<rparr>"

definition no_error :: "nat \<Rightarrow> bool" where
  "no_error itemId = False"

definition opened_store :: store where
  "opened_store = snd (createTransaction seed_store)"

definition one_line_store :: store where
  "one_line_store = snd (addLine opened_store 2 ''123'' None)"

definition sold_store :: store where
  "sold_store = snd (finalize no_error one_line_store 2 5)"

text \<open>
  A second sale: two packs of Chips are scanned after the Coca Cola, the sale is paid with
  20.00, and the Coca Cola line (line 3) is refunded first.
\<close>

definition two_line_store :: store where
  "two_line_store = snd (addLine one_line_store 2 ''456'' (Some 2))"

definition sold_two_store :: store where
  "sold_two_store = snd (finalize no_error two_line_store 2 20)"

definition part_refunded_store :: store where
  "part_refunded_store = snd (refund_lines no_error sold_two_store 2 [3])"

text \<open>
  A sale that exceeds the stock: thirty more Coca Cola are scanned into the open two-line
  transaction (24 are on hand), and during finalize the datastore fails on the row of the
  Chips (item 1).
\<close>

definition big_order_store :: store where
  "big_order_store = snd (addLine two_line_store 2 ''999'' (Some 30))"

definition chips_error :: "nat \<Rightarrow> bool" where
  "chips_error itemId = (itemId = 1)"

section \<open>Adding a line to a transaction that is not open\<close>

text \<open>
  Claim C2 asks that adding a line to a transaction whose status is not \<^verbatim>\<open>open\<close> fails with
  InvalidState and inserts no line. The handler never looks at the status. On the finalized
  sale above (transaction 2, one line, paid), scanning two packs of Chips succeeds: a second
  line is inserted and the totals of the finalized transaction are rewritten from 2.99 /
  0.261625 / 3.251625 to 9.97 / 0.872375 / 10.842375, while its status stays
  \<^verbatim>\<open>finalized\<close>.
\<close>

theorem addLine_accepts_finalized_transaction:
  "map t_status (tbl_pos_transaction sold_store) = [Finalized] \<and>
   length (lines_of sold_store 2) = 1 \<and>
   fst (addLine sold_store 2 ''456'' (Some 2)) =
     Inr \<lparr>a_line = \<lparr>l_id = 5, l_transaction_id = 2, l_item_id = 1, l_quantity = 2,
                    l_unit_price = 349 / 100, l_tax_rate = 7 / 80,
                    l_line_total = 30363 / 4000, l_refunded_by = None\<rparr>,
          a_transaction = \<lparr>t_id = 2, t_status = Finalized, t_subtotal = 997 / 100,
                           t_tax = 6979 / 8000, t_total = 86739 / 8000\<rparr>\<rparr> \<and>
   length (lines_of (snd (addLine sold_store 2 ''456'' (Some 2))) 2) = 2"
  by code_simp

section \<open>What the add-line handler persists\<close>

text \<open>
  Claim C8 asks that every currency value is rounded to two decimals where it is persisted,
  so that one Coca Cola (2.99 at 8.75 percent) is stored with line total 3.25 and the
  transaction with 2.99, 0.26 and 3.25. The add-line handler passes the products and sums
  to the datastore as they are: the stored line total is 3.251625 (26013/8000), the stored
  tax 0.261625 (2093/8000) and the stored total 3.251625. Only \<^verbatim>\<open>toFixed(2)\<close> of these
  values gives 3.25 and 0.26; the refund handler applies it before its insert, the add-line
  handler does not.
\<close>

theorem addLine_persists_unrounded_amounts:
  "map l_line_total (tbl_transaction_line one_line_store) = [26013 / 8000] \<and>
   map (\<lambda>t. (t_subtotal t, t_tax t, t_total t)) (tbl_pos_transaction one_line_store) =
     [(299 / 100, 2093 / 8000, 26013 / 8000)] \<and>
   toFixed2 (26013 / 8000) = 325 / 100 \<and>
   toFixed2 (2093 / 8000) = 26 / 100 \<and>
   (26013 / 8000 :: rat) \<noteq> 325 / 100"
  by code_simp

section \<open>Queries after an update\<close>

lemma single_Some_iff: "single xs = Some x \<longleftrightarrow> xs = [x]"
  by (cases xs rule: single.cases) auto

lemma single_map: "single (map g xs) = map_option g (single xs)"
  by (cases xs rule: single.cases) auto

lemma filter_update_where_same:
  assumes "\<And>r. key (f r) = key r"
  shows "filter (\<lambda>r. key r = k) (update_where (\<lambda>r. key r = k') f rows) =
         map (\<lambda>r. if key r = k' then f r else r) (filter (\<lambda>r. key r = k) rows)"
  using assms by (induction rows) (auto simp: update_where_def)

lemma map_key_update_where:
  assumes "\<And>r. key (f r) = key r"
  shows "map key (update_where p f rows) = map key rows"
  using assms by (induction rows) (auto simp: update_where_def)

lemma transaction_by_id_update:
  assumes "\<And>t. t_id (f t) = t_id t"
  shows "transaction_by_id (s\<lparr>tbl_pos_transaction :=
            update_where (\<lambda>t. t_id t = k') f (tbl_pos_transaction s)\<rparr>) k =
         map_option (\<lambda>t. if t_id t = k' then f t else t) (transaction_by_id s k)"
  by (simp add: transaction_by_id_def single_map
      filter_update_where_same [where key = t_id, OF assms])

lemma transaction_by_id_key: "transaction_by_id s k = Some t \<Longrightarrow> t_id t = k"
proof -
  assume "transaction_by_id s k = Some t"
  then have "filter (\<lambda>t. t_id t = k) (tbl_pos_transaction s) = [t]"
    by (simp add: transaction_by_id_def single_Some_iff)
  then have "t \<in> set (filter (\<lambda>t. t_id t = k) (tbl_pos_transaction s))"
    by simp
  then show ?thesis by simp
qed

lemma filter_key_distinct:
  "distinct (map key xs) \<Longrightarrow> x \<in> set xs \<Longrightarrow> filter (\<lambda>y. key y = key x) xs = [x]"
proof (induction xs)
  case Nil
  then show ?case by simp
next
  case (Cons a xs)
  show ?case
  proof (cases "a = x")
    case True
    have "key x \<notin> key ` set xs"
      using Cons.prems(1) True by simp
    then have "filter (\<lambda>y. key y = key x) xs = []"
      unfolding filter_empty_conv by (metis imageI)
    then show ?thesis using True by simp
  next
    case False
    then have "x \<in> set xs" using Cons.prems(2) by simp
    moreover have "key a \<noteq> key x"
      using Cons.prems(1) \<open>x \<in> set xs\<close> by auto
    ultimately show ?thesis using Cons by simp
  qed
qed

section \<open>Rounding to two decimals\<close>




section \<open>The outcomes of finalize\<close>

lemma finalize_succeeds:
  assumes "0 < cash" and "transaction_by_id s tid = Some t" and "t_status t = Open"
    and "t_total t \<le> cash"
  shows "finalize e s tid cash =
     (Inr \<lparr>f_transaction = t\<lparr>t_status := Finalized\<rparr>,
           f_payment = \<lparr>p_id = next_id s, p_transaction_id = tid, p_method = ''cash'',
                        p_amount = cash\<rparr>,
           f_change = toFixed2 (cash - t_total t)\<rparr>,
      s\<lparr>tbl_pos_transaction :=
           update_where (\<lambda>t. t_id t = tid) (\<lambda>t. t\<lparr>t_status := Finalized\<rparr>)
             (tbl_pos_transaction s),
         tbl_payment := tbl_payment s @
           [\<lparr>p_id = next_id s, p_transaction_id = tid, p_method = ''cash'', p_amount = cash\<rparr>],
         next_id := Suc (next_id s),
         tbl_item := decrease_quantities e (tbl_item s) (lines_of s tid)\<rparr>)"
proof -
  have key: "t_id t = tid"
    using assms(2) by (rule transaction_by_id_key)
  have upd: "transaction_by_id (s\<lparr>tbl_pos_transaction :=
            update_where (\<lambda>t. t_id t = tid) (\<lambda>t. t\<lparr>t_status := Finalized\<rparr>)
              (tbl_pos_transaction s)\<rparr>) tid = Some (t\<lparr>t_status := Finalized\<rparr>)"
    using assms(2) key by (simp add: transaction_by_id_update)
  show ?thesis
    using assms upd by (simp add: finalize_def Let_def lines_of_def)
qed

lemma finalize_fails:
  shows "cash \<le> 0 \<Longrightarrow> finalize e s tid cash = (Inl InvalidInput, s)"
    and "0 < cash \<Longrightarrow> transaction_by_id s tid = None \<Longrightarrow>
         finalize e s tid cash = (Inl NotFound, s)"
    and "0 < cash \<Longrightarrow> transaction_by_id s tid = Some t \<Longrightarrow> t_status t \<noteq> Open \<Longrightarrow>
         finalize e s tid cash = (Inl InvalidState, s)"
    and "0 < cash \<Longrightarrow> transaction_by_id s tid = Some t \<Longrightarrow> t_status t = Open \<Longrightarrow>
         cash < t_total t \<Longrightarrow> finalize e s tid cash = (Inl InsufficientPayment, s)"
  by (simp_all add: finalize_def)

lemma finalize_cases:
  obtains (invalid) "cash \<le> 0" "finalize e s tid cash = (Inl InvalidInput, s)"
  | (missing) "0 < cash" "transaction_by_id s tid = None"
      "finalize e s tid cash = (Inl NotFound, s)"
  | (state) t where "0 < cash" "transaction_by_id s tid = Some t" "t_status t \<noteq> Open"
      "finalize e s tid cash = (Inl InvalidState, s)"
  | (short) t where "0 < cash" "transaction_by_id s tid = Some t" "t_status t = Open"
      "cash < t_total t" "finalize e s tid cash = (Inl InsufficientPayment, s)"
  | (paid) t where "0 < cash" "transaction_by_id s tid = Some t" "t_status t = Open"
      "t_total t \<le> cash"
      "finalize e s tid cash =
        (Inr \<lparr>f_transaction = t\<lparr>t_status := Finalized\<rparr>,
           f_payment = \<lparr>p_id = next_id s, p_transaction_id = tid, p_method = ''cash'',
                        p_amount = cash\<rparr>,
           f_change = toFixed2 (cash - t_total t)\<rparr>,
         s\<lparr>tbl_pos_transaction :=
           update_where (\<lambda>t. t_id t = tid) (\<lambda>t. t\<lparr>t_status := Finalized\<rparr>)
             (tbl_pos_transaction s),
           tbl_payment := tbl_payment s @
             [\<lparr>p_id = next_id s, p_transaction_id = tid, p_method = ''cash'', p_amount = cash\<rparr>],
           next_id := Suc (next_id s),
           tbl_item := decrease_quantities e (tbl_item s) (lines_of s tid)\<rparr>)"
proof (cases "cash \<le> 0")
  case True
  then show ?thesis using invalid finalize_fails(1) by blast
next
  case pos: False
  show ?thesis
  proof (cases "transaction_by_id s tid")
    case None
    then show ?thesis using pos missing finalize_fails(2) [of cash s tid e] by simp
  next
    case (Some t)
    show ?thesis
    proof (cases "t_status t = Open")
      case False
      then show ?thesis using pos Some state finalize_fails(3) [of cash s tid t e] by simp
    next
      case op: True
      show ?thesis
      proof (cases "cash < t_total t")
        case True
        then show ?thesis using pos Some op short finalize_fails(4) [of cash s tid t e] by simp
      next
        case False
        then show ?thesis
          using pos Some op paid finalize_succeeds [of cash s tid t e] by simp
      qed
    qed
  qed
qed

section \<open>Finalize: failures and change (claim C3)\<close>




section \<open>The stock loop of finalize\<close>

lemma item_by_id_member:
  "distinct (map i_id items) \<Longrightarrow> it \<in> set items \<Longrightarrow> item_by_id items (i_id it) = Some it"
  by (simp add: item_by_id_def filter_key_distinct [where key = i_id])

lemma item_by_id_None:
  assumes "distinct (map i_id items)" and "item_by_id items k = None"
  shows "k \<notin> i_id ` set items"
proof
  assume "k \<in> i_id ` set items"
  then obtain it where "it \<in> set items" and "i_id it = k" by auto
  then have "item_by_id items k = Some it"
    using item_by_id_member [OF assms(1)] by auto
  with assms(2) show False by simp
qed

lemma item_by_id_Some:
  "item_by_id items k = Some it \<Longrightarrow> it \<in> set items \<and> i_id it = k"
proof -
  assume "item_by_id items k = Some it"
  then have "filter (\<lambda>i. i_id i = k) items = [it]"
    by (simp add: item_by_id_def single_Some_iff)
  then have "it \<in> set (filter (\<lambda>i. i_id i = k) items)"
    by simp
  then show ?thesis by simp
qed

text \<open>
  With unique item ids the loop has a closed form: an item whose row fails keeps its
  quantity, and any other item ends with the quantity obtained by taking the lines that
  sell it one after the other, each replacing the quantity \<open>q\<close> by \<open>max 0 (q - sold)\<close>.
\<close>

lemma decrease_quantities_closed_form:
  "distinct (map i_id items) \<Longrightarrow>
   decrease_quantities e items lines =
     map (\<lambda>it. if e (i_id it) then it
               else it\<lparr>i_quantity :=
                      foldl (\<lambda>q line. max 0 (q - l_quantity line)) (i_quantity it)
                        (filter (\<lambda>line. l_item_id line = i_id it) lines)\<rparr>) items"
proof (induction lines arbitrary: items)
  case Nil
  then show ?case by (simp add: map_idI)
next
  case (Cons line rest)
  show ?case
  proof (cases "item_by_id items (l_item_id line)")
    case None
    then have "l_item_id line \<notin> i_id ` set items"
      using Cons.prems by (rule item_by_id_None [rotated])
    then have "\<forall>it \<in> set items. l_item_id line \<noteq> i_id it" by auto
    then show ?thesis
      using None Cons.IH [OF Cons.prems] by simp
  next
    case (Some item)
    then have item: "item \<in> set items" "i_id item = l_item_id line"
      using item_by_id_Some by auto
    have only: "it = item" if "it \<in> set items" "i_id it = l_item_id line" for it
      using that Some item_by_id_member [OF Cons.prems that(1)] by simp
    show ?thesis
    proof (cases "e (l_item_id line)")
      case True
      then show ?thesis
        using Some Cons.IH [OF Cons.prems] by auto
    next
      case False
      let ?items' = "update_where (\<lambda>i. i_id i = l_item_id line)
          (\<lambda>i. i\<lparr>i_quantity := max 0 (i_quantity item - l_quantity line)\<rparr>) items"
      have "map i_id ?items' = map i_id items"
        by (rule map_key_update_where) simp
      then have "distinct (map i_id ?items')"
        using Cons.prems by simp
      from Cons.IH [OF this] have
        "decrease_quantities e items (line # rest) =
           map (\<lambda>it. if e (i_id it) then it
               else it\<lparr>i_quantity :=
                      foldl (\<lambda>q line. max 0 (q - l_quantity line)) (i_quantity it)
                        (filter (\<lambda>line. l_item_id line = i_id it) rest)\<rparr>) ?items'"
        using Some False by (simp add: Let_def)
      also have "\<dots> = map (\<lambda>it. if e (i_id it) then it
               else it\<lparr>i_quantity :=
                      foldl (\<lambda>q line. max 0 (q - l_quantity line)) (i_quantity it)
                        (filter (\<lambda>line. l_item_id line = i_id it) (line # rest))\<rparr>) items"
        using only False by (auto simp: update_where_def)
      finally show ?thesis .
    qed
  qed
qed

lemma foldl_max0_nonneg:
  "lines \<noteq> [] \<Longrightarrow> 0 \<le> foldl (\<lambda>q line. max 0 (q - l_quantity line)) (q0 :: int) lines"
proof (induction lines arbitrary: q0 rule: rev_induct)
  case Nil
  then show ?case by simp
next
  case (snoc line lines)
  then show ?case by simp
qed

section \<open>Finalize: stock is decremented, floored at zero (claim C4)\<close>

text \<open>
  Claim C4. Whether finalize succeeds is decided by the cash amount and the transaction
  alone: neither the stock nor a failing item row enters the condition. On success, every
  item whose row does not fail ends with the quantity obtained by applying
  \<open>q \<mapsto> max 0 (q - line quantity)\<close> once for each line of the transaction that sells it, in
  order (for an item sold on one line: \<open>max 0 (quantity - line quantity)\<close>); such a
  quantity is never negative once a line has been applied. An item whose row fails keeps
  its row, and the other items are updated as if nothing had failed. Item ids are unique
  (primary key).
\<close>

theorem finalize_stock_decrement:
  assumes "distinct (map i_id (tbl_item s))"
  shows
  "((\<exists>r. fst (finalize e s tid cash) = Inr r) \<longleftrightarrow>
      0 < cash \<and> (\<exists>t. transaction_by_id s tid = Some t \<and> t_status t = Open \<and>
                       t_total t \<le> cash)) \<and>
   (\<forall>r. fst (finalize e s tid cash) = Inr r \<longrightarrow>
      (\<forall>it \<in> set (tbl_item s).
         item_by_id (tbl_item (snd (finalize e s tid cash))) (i_id it) =
           Some (if e (i_id it) then it
                 else it\<lparr>i_quantity :=
                        foldl (\<lambda>q line. max 0 (q - l_quantity line)) (i_quantity it)
                          (filter (\<lambda>line. l_item_id line = i_id it) (lines_of s tid))\<rparr>)) \<and>
      (\<forall>it line. it \<in> set (tbl_item s) \<and> \<not> e (i_id it) \<and>
         filter (\<lambda>line. l_item_id line = i_id it) (lines_of s tid) = [line] \<longrightarrow>
         item_by_id (tbl_item (snd (finalize e s tid cash))) (i_id it) =
           Some (it\<lparr>i_quantity := max 0 (i_quantity it - l_quantity line)\<rparr>)) \<and>
      (\<forall>it' \<in> set (tbl_item (snd (finalize e s tid cash))).
         \<not> e (i_id it') \<and> i_id it' \<in> l_item_id ` set (lines_of s tid) \<longrightarrow>
         0 \<le> i_quantity it'))"
proof -
  let ?dec = "\<lambda>it. if e (i_id it) then it
                 else it\<lparr>i_quantity :=
                        foldl (\<lambda>q line. max 0 (q - l_quantity line)) (i_quantity it)
                          (filter (\<lambda>line. l_item_id line = i_id it) (lines_of s tid))\<rparr>"
  have success: "(\<exists>r. fst (finalize e s tid cash) = Inr r) \<longleftrightarrow>
      0 < cash \<and> (\<exists>t. transaction_by_id s tid = Some t \<and> t_status t = Open \<and>
                       t_total t \<le> cash)"
    by (cases rule: finalize_cases [of cash e s tid]) auto
  have items: "tbl_item (snd (finalize e s tid cash)) = map ?dec (tbl_item s)"
    if "fst (finalize e s tid cash) = Inr r" for r
    using that
    by (cases rule: finalize_cases [of cash e s tid])
      (simp_all add: decrease_quantities_closed_form [OF assms])
  have ids: "map i_id (map ?dec (tbl_item s)) = map i_id (tbl_item s)"
    by (induction "tbl_item s") (simp_all add: comp_def)
  have lookup: "item_by_id (map ?dec (tbl_item s)) (i_id it) = Some (?dec it)"
    if "it \<in> set (tbl_item s)" for it
  proof -
    have "distinct (map i_id (map ?dec (tbl_item s)))"
      unfolding ids by (rule assms)
    moreover have "?dec it \<in> set (map ?dec (tbl_item s))"
      using that by simp
    moreover have "i_id (?dec it) = i_id it" by simp
    ultimately show ?thesis
      using item_by_id_member [of "map ?dec (tbl_item s)" "?dec it"] by simp
  qed
  have nonneg: "0 \<le> i_quantity it'"
    if "it' \<in> set (map ?dec (tbl_item s))" "\<not> e (i_id it')"
      "i_id it' \<in> l_item_id ` set (lines_of s tid)" for it'
  proof -
    from that(1) obtain it where it: "it \<in> set (tbl_item s)" "it' = ?dec it" by auto
    then have same: "i_id it' = i_id it" by simp
    with that(3) have "filter (\<lambda>line. l_item_id line = i_id it) (lines_of s tid) \<noteq> []"
      by (auto simp: filter_empty_conv)
    from foldl_max0_nonneg [OF this] it that(2) same show ?thesis by simp
  qed
  show ?thesis
    using success items lookup nonneg by (auto simp del: item.simps)
qed

text \<open>
  The theorem at the sale that exceeds the stock, with the row of the Chips failing: the
  finalize succeeds, the Coca Cola go from 24 to \<open>max 0 (max 0 (24 - 1) - 30) = 0\<close>, the
  Chips keep their 12; without the failure the Chips go to 10.
\<close>

theorem finalize_stock_decrement_witness:
  "distinct (map i_id (tbl_item big_order_store)) \<and>
   map (\<lambda>l. (l_item_id l, l_quantity l)) (lines_of big_order_store 2) = [(0, 1), (1, 2), (0, 30)] \<and>
   map (\<lambda>it. (i_id it, i_quantity it)) (tbl_item big_order_store) = [(0, 24), (1, 12)] \<and>
   (\<exists>r. fst (finalize chips_error big_order_store 2 200) = Inr r) \<and>
   item_by_id (tbl_item (snd (finalize chips_error big_order_store 2 200))) 0 =
     Some \<lparr>i_id = 0, i_price = 299 / 100, i_tax_rate = 7 / 80, i_quantity = 0,
           i_is_active = True\<rparr> \<and>
   item_by_id (tbl_item (snd (finalize chips_error big_order_store 2 200))) 1 =
     Some \<lparr>i_id = 1, i_price = 349 / 100, i_tax_rate = 7 / 80, i_quantity = 12,
           i_is_active = True\<rparr> \<and>
   item_by_id (tbl_item (snd (finalize no_error big_order_store 2 200))) 1 =
     Some \<lparr>i_id = 1, i_price = 349 / 100, i_tax_rate = 7 / 80, i_quantity = 10,
           i_is_active = True\<rparr>"
proof -
  let ?coke = "\<lparr>i_id = 0, i_price = 299 / 100, i_tax_rate = 7 / 80, i_quantity = 24,
           i_is_active = True\<rparr>"
  let ?chips = "\<lparr>i_id = 1, i_price = 349 / 100, i_tax_rate = 7 / 80, i_quantity = 12,
           i_is_active = True\<rparr>"
  have d: "distinct (map i_id (tbl_item big_order_store))"
    by code_simp
  have lines: "map (\<lambda>l. (l_item_id l, l_quantity l)) (lines_of big_order_store 2) =
      [(0, 1), (1, 2), (0, 30)]"
    by code_simp
  have stock: "map (\<lambda>it. (i_id it, i_quantity it)) (tbl_item big_order_store) =
      [(0, 24), (1, 12)]"
    by code_simp
  have t: "transaction_by_id big_order_store 2 =
      Some \<lparr>t_id = 2, t_status = Open, t_subtotal = 9967 / 100, t_tax = 69769 / 8000,
            t_total = 867129 / 8000\<rparr>"
    by code_simp
  have coke: "?coke \<in> set (tbl_item big_order_store)"
    and chips: "?chips \<in> set (tbl_item big_order_store)"
    by code_simp+
  note faulty = finalize_stock_decrement [OF d, of chips_error 2 200]
  note sound = finalize_stock_decrement [OF d, of no_error 2 200]
  have ok: "\<exists>r. fst (finalize chips_error big_order_store 2 200) = Inr r"
    using faulty t by simp
  have ok': "\<exists>r. fst (finalize no_error big_order_store 2 200) = Inr r"
    using sound t by simp
  have "item_by_id (tbl_item (snd (finalize chips_error big_order_store 2 200))) (i_id ?coke) =
      Some (if chips_error (i_id ?coke) then ?coke
            else ?coke\<lparr>i_quantity :=
                   foldl (\<lambda>q line. max 0 (q - l_quantity line)) (i_quantity ?coke)
                     (filter (\<lambda>line. l_item_id line = i_id ?coke)
                        (lines_of big_order_store 2))\<rparr>)"
    using faulty ok coke by blast
  moreover have "(if chips_error (i_id ?coke) then ?coke
            else ?coke\<lparr>i_quantity :=
                   foldl (\<lambda>q line. max 0 (q - l_quantity line)) (i_quantity ?coke)
                     (filter (\<lambda>line. l_item_id line = i_id ?coke)
                        (lines_of big_order_store 2))\<rparr>) = ?coke\<lparr>i_quantity := 0\<rparr>"
    by code_simp
  ultimately have r0: "item_by_id (tbl_item (snd (finalize chips_error big_order_store 2 200))) 0 =
      Some (?coke\<lparr>i_quantity := 0\<rparr>)"
    by simp
  have "item_by_id (tbl_item (snd (finalize chips_error big_order_store 2 200))) (i_id ?chips) =
      Some (if chips_error (i_id ?chips) then ?chips
            else ?chips\<lparr>i_quantity :=
                   foldl (\<lambda>q line. max 0 (q - l_quantity line)) (i_quantity ?chips)
                     (filter (\<lambda>line. l_item_id line = i_id ?chips)
                        (lines_of big_order_store 2))\<rparr>)"
    using faulty ok chips by blast
  then have r1: "item_by_id (tbl_item (snd (finalize chips_error big_order_store 2 200))) 1 =
      Some ?chips"
    by (simp add: chips_error_def)
  have "item_by_id (tbl_item (snd (finalize no_error big_order_store 2 200))) (i_id ?chips) =
      Some (if no_error (i_id ?chips) then ?chips
            else ?chips\<lparr>i_quantity :=
                   foldl (\<lambda>q line. max 0 (q - l_quantity line)) (i_quantity ?chips)
                     (filter (\<lambda>line. l_item_id line = i_id ?chips)
                        (lines_of big_order_store 2))\<rparr>)"
    using sound ok' chips by blast
  moreover have "(if no_error (i_id ?chips) then ?chips
            else ?chips\<lparr>i_quantity :=
                   foldl (\<lambda>q line. max 0 (q - l_quantity line)) (i_quantity ?chips)
                     (filter (\<lambda>line. l_item_id line = i_id ?chips)
                        (lines_of big_order_store 2))\<rparr>) = ?chips\<lparr>i_quantity := 10\<rparr>"
    by code_simp
  ultimately have r2: "item_by_id (tbl_item (snd (finalize no_error big_order_store 2 200))) 1 =
      Some (?chips\<lparr>i_quantity := 10\<rparr>)"
    by simp
  show ?thesis
    using d lines stock ok r0 r1 r2 by simp
qed

section \<open>The accumulator loops\<close>

lemma foldl_add_line_totals:
  "foldl add_line_totals (a, b, c) ls =
     (a + sum_list (map lineSubtotal ls), b + sum_list (map lineTax ls),
      c + (sum_list (map lineSubtotal ls) + sum_list (map lineTax ls)))"
  by (induction ls arbitrary: a b c) (simp_all add: add_line_totals_def algebra_simps)

lemma foldl_add_refund_totals:
  "foldl add_refund_totals (a, b, c) ls =
     (a + sum_list (map lineSubtotal ls), b + sum_list (map lineTax ls),
      c + sum_list (map l_line_total ls))"
  by (induction ls arbitrary: a b c) (simp_all add: add_refund_totals_def algebra_simps)

section \<open>The refund row of an original transaction\<close>

lemma get_or_create_refund_new:
  "transactionId \<notin> set (map r_original_tx (tbl_refund s)) \<Longrightarrow>
   get_or_create_refund s transactionId refund_tx =
     (Some \<lparr>r_id = next_id s, r_original_tx = transactionId, r_refund_tx = refund_tx\<rparr>,
      s\<lparr>tbl_refund := tbl_refund s @
           [\<lparr>r_id = next_id s, r_original_tx = transactionId, r_refund_tx = refund_tx\<rparr>],
        next_id := Suc (next_id s)\<rparr>)"
  by (simp add: get_or_create_refund_def insert_refund_def Let_def)

lemma get_or_create_refund_existing:
  "transactionId \<in> set (map r_original_tx (tbl_refund s)) \<Longrightarrow>
   get_or_create_refund s transactionId refund_tx =
     (single (filter (\<lambda>r. r_original_tx r = transactionId) (tbl_refund s)), s)"
  by (simp add: get_or_create_refund_def insert_refund_def)

lemma get_or_create_refund_frame:
  assumes "get_or_create_refund s transactionId refund_tx = (ro, s2)"
  shows "tbl_pos_transaction s2 = tbl_pos_transaction s"
    and "tbl_transaction_line s2 = tbl_transaction_line s"
    and "tbl_item s2 = tbl_item s"
    and "tbl_item_barcode s2 = tbl_item_barcode s"
    and "tbl_payment s2 = tbl_payment s"
    and "next_id s \<le> next_id s2"
  using assms
  by (cases "transactionId \<in> set (map r_original_tx (tbl_refund s))";
      auto simp: get_or_create_refund_new get_or_create_refund_existing)+

section \<open>The outcomes of refund\<close>

lemma refund_lines_fails:
  shows "ids = [] \<Longrightarrow> refund_lines e s tid ids = (Inl InvalidInput, s)"
    and "ids \<noteq> [] \<Longrightarrow> transaction_by_id s tid = None \<Longrightarrow>
         refund_lines e s tid ids = (Inl NotFound, s)"
    and "ids \<noteq> [] \<Longrightarrow> transaction_by_id s tid = Some t \<Longrightarrow> t_status t \<noteq> Finalized \<Longrightarrow>
         refund_lines e s tid ids = (Inl InvalidState, s)"
    and "ids \<noteq> [] \<Longrightarrow> transaction_by_id s tid = Some t \<Longrightarrow> t_status t = Finalized \<Longrightarrow>
         length (selected_lines s tid ids) \<noteq> length ids \<Longrightarrow>
         refund_lines e s tid ids = (Inl InvalidInput, s)"
    and "ids \<noteq> [] \<Longrightarrow> transaction_by_id s tid = Some t \<Longrightarrow> t_status t = Finalized \<Longrightarrow>
         length (selected_lines s tid ids) = length ids \<Longrightarrow>
         filter (\<lambda>line. l_refunded_by line \<noteq> None) (selected_lines s tid ids) \<noteq> [] \<Longrightarrow>
         refund_lines e s tid ids = (Inl InvalidInput, s)"
  by (simp_all add: refund_lines_def Let_def)

lemma refund_lines_proceeds:
  fixes s :: store and tid :: nat and ids :: "nat list"
  defines "sel \<equiv> selected_lines s tid ids"
  defines "rt \<equiv> \<lparr>t_id = next_id s, t_status = Finalized,
                  t_subtotal = toFixed2 (sum_list (map lineSubtotal sel)),
                  t_tax = toFixed2 (sum_list (map lineTax sel)),
                  t_total = toFixed2 (sum_list (map l_line_total sel))\<rparr>"
  assumes "ids \<noteq> []" and "transaction_by_id s tid = Some t" and "t_status t = Finalized"
    and "length sel = length ids"
    and "filter (\<lambda>line. l_refunded_by line \<noteq> None) sel = []"
    and "get_or_create_refund
           (s\<lparr>tbl_pos_transaction := tbl_pos_transaction s @ [rt], next_id := Suc (next_id s)\<rparr>)
           tid (next_id s) = (ro, s2)"
  shows "ro = None \<Longrightarrow> refund_lines e s tid ids = (Inl InternalError, s2)"
    and "ro = Some rec \<Longrightarrow>
         fst (refund_lines e s tid ids) =
           Inr \<lparr>rr_refundAmount = toFixed2 (sum_list (map l_line_total sel)),
                rr_originalTransaction = t, rr_refundTransaction = rt,
                rr_isPartial = list_ex (\<lambda>line. l_refunded_by line = None)
                  (filter (\<lambda>l. l_transaction_id l = tid)
                     (mark_refunded (r_id rec) (tbl_transaction_line s) ids))\<rparr>"
    and "ro = Some rec \<Longrightarrow>
         tbl_transaction_line (snd (refund_lines e s tid ids)) =
           mark_refunded (r_id rec) (tbl_transaction_line s) ids"
    and "ro = Some rec \<Longrightarrow>
         tbl_pos_transaction (snd (refund_lines e s tid ids)) =
           (if list_all (\<lambda>line. l_refunded_by line \<noteq> None)
                 (filter (\<lambda>l. l_transaction_id l = tid)
                    (mark_refunded (r_id rec) (tbl_transaction_line s) ids))
            then update_where (\<lambda>t. t_id t = tid) (\<lambda>t. t\<lparr>t_status := Refunded\<rparr>)
                   (tbl_pos_transaction s @ [rt])
            else tbl_pos_transaction s @ [rt])"
    and "ro = Some rec \<Longrightarrow>
         tbl_refund (snd (refund_lines e s tid ids)) = tbl_refund s2"
    and "ro = Some rec \<Longrightarrow>
         tbl_payment (snd (refund_lines e s tid ids)) =
           tbl_payment s @
             [\<lparr>p_id = next_id s2, p_transaction_id = next_id s, p_method = ''cash'',
               p_amount = - toFixed2 (sum_list (map l_line_total sel))\<rparr>]"
    and "ro = Some rec \<Longrightarrow>
         tbl_item (snd (refund_lines e s tid ids)) = increase_quantities e (tbl_item s) sel"
    and "ro = Some rec \<Longrightarrow> next_id (snd (refund_lines e s tid ids)) = Suc (next_id s2)"
  using assms(3-8) get_or_create_refund_frame [OF assms(8)]
  unfolding sel_def rt_def
  by (simp_all add: refund_lines_def Let_def foldl_add_refund_totals lines_of_def)

section \<open>The outcome of a successful add-line\<close>


lemma addLine_succeeds:
  fixes s :: store and tid :: nat and qo :: "int option"
  defines "q \<equiv> (case qo of None \<Rightarrow> 1 | Some n \<Rightarrow> n)"
  assumes "bc \<noteq> []" and "0 < q"
    and "single (filter (\<lambda>b. b_barcode b = trim bc) (tbl_item_barcode s)) = Some b"
    and "item_by_id (tbl_item s) (b_item_id b) = Some item" and "i_is_active item"
    and "tid \<in> set (map t_id (tbl_pos_transaction s))"
    and "transaction_by_id s tid = Some t"
    and "line = \<lparr>l_id = next_id s, l_transaction_id = tid, l_item_id = b_item_id b,
                  l_quantity = q, l_unit_price = i_price item, l_tax_rate = i_tax_rate item,
                  l_line_total = i_price item * of_int q + i_price item * of_int q * i_tax_rate item,
                  l_refunded_by = None\<rparr>"
    and "upd = (\<lambda>t. t\<lparr>t_subtotal := sum_list (map lineSubtotal (lines_of s tid @ [line])),
                    t_tax := sum_list (map lineTax (lines_of s tid @ [line])),
                    t_total := sum_list (map lineSubtotal (lines_of s tid @ [line])) +
                               sum_list (map lineTax (lines_of s tid @ [line]))\<rparr>)"
  shows "addLine s tid bc qo =
     (Inr \<lparr>a_line = line, a_transaction = upd t\<rparr>,
      s\<lparr>tbl_transaction_line := tbl_transaction_line s @ [line],
        next_id := Suc (next_id s),
        tbl_pos_transaction := update_where (\<lambda>t. t_id t = tid) upd (tbl_pos_transaction s)\<rparr>)"
proof -
  have key: "t_id t = tid"
    using assms(8) by (rule transaction_by_id_key)
  have tb: "single (filter (\<lambda>t. t_id t = tid) (tbl_pos_transaction s)) = Some t"
    using assms(8) by (simp add: transaction_by_id_def)
  show ?thesis
    unfolding addLine_def Let_def q_def [symmetric]
    using assms(2-7) key tb
    by (simp add: assms(9,10) lines_of_def transaction_by_id_def foldl_add_line_totals
        add_line_totals_def single_map filter_update_where_same [where key = t_id]
        ac_simps)
qed


section \<open>Consequences of the datastore constraints\<close>

lemma transaction_by_id_cong:
  "tbl_pos_transaction s' = tbl_pos_transaction s \<Longrightarrow>
   transaction_by_id s' k = transaction_by_id s k"
  by (simp add: transaction_by_id_def)


lemma transaction_by_id_updated:
  assumes "tbl_pos_transaction s' = update_where (\<lambda>t. t_id t = k') f (tbl_pos_transaction s)"
    and "\<And>t. t_id (f t) = t_id t"
  shows "transaction_by_id s' k =
         map_option (\<lambda>t. if t_id t = k' then f t else t) (transaction_by_id s k)"
  by (simp add: transaction_by_id_def assms(1) single_map
      filter_update_where_same [where key = t_id, OF assms(2)])

lemma transaction_by_id_member:
  "transaction_by_id s k = Some t \<Longrightarrow> t \<in> set (tbl_pos_transaction s)"
proof -
  assume "transaction_by_id s k = Some t"
  then have "filter (\<lambda>t. t_id t = k) (tbl_pos_transaction s) = [t]"
    by (simp add: transaction_by_id_def single_Some_iff)
  then have "t \<in> set (filter (\<lambda>t. t_id t = k) (tbl_pos_transaction s))"
    by simp
  then show ?thesis by simp
qed

lemma store_ok_known_below:
  assumes "store_ok s" and "transaction_by_id s k = Some t"
  shows "k < next_id s"
proof -
  have "t \<in> set (tbl_pos_transaction s)" and "t_id t = k"
    using assms(2) transaction_by_id_member transaction_by_id_key by auto
  then show ?thesis
    using assms(1) by (auto simp: store_ok_def list_all_iff)
qed



text \<open>The marking loop marks exactly the lines whose id was requested.\<close>

lemma mark_refunded_map:
  "mark_refunded refundId lines ids =
     map (\<lambda>l. if l_id l \<in> set ids then l\<lparr>l_refunded_by := Some refundId\<rparr> else l) lines"
proof (induction ids arbitrary: lines)
  case Nil
  then show ?case by (simp add: map_idI)
next
  case (Cons i ids)
  show ?case
    by (simp add: Cons.IH update_where_def) 
qed


lemma get_or_create_refund_Some:
  assumes "get_or_create_refund s0 tid rtx = (Some rec, s2)"
  shows "filter (\<lambda>r. r_original_tx r = tid) (tbl_refund s2) = [rec]"
    and "tid \<in> set (map r_original_tx (tbl_refund s0)) \<Longrightarrow>
         tbl_refund s2 = tbl_refund s0 \<and> next_id s2 = next_id s0"
    and "tid \<notin> set (map r_original_tx (tbl_refund s0)) \<Longrightarrow>
         tbl_refund s2 = tbl_refund s0 @ [rec] \<and>
         rec = \<lparr>r_id = next_id s0, r_original_tx = tid, r_refund_tx = rtx\<rparr> \<and>
         next_id s2 = Suc (next_id s0)"
proof -
  show "filter (\<lambda>r. r_original_tx r = tid) (tbl_refund s2) = [rec]"
  proof (cases "tid \<in> set (map r_original_tx (tbl_refund s0))")
    case True
    then show ?thesis
      using assms by (auto simp: get_or_create_refund_existing single_Some_iff)
  next
    case False
    then have "filter (\<lambda>r. r_original_tx r = tid) (tbl_refund s0) = []"
      by (auto simp: filter_empty_conv)
    then show ?thesis
      using assms False by (auto simp: get_or_create_refund_new)
  qed
  show "tid \<in> set (map r_original_tx (tbl_refund s0)) \<Longrightarrow>
         tbl_refund s2 = tbl_refund s0 \<and> next_id s2 = next_id s0"
    using assms by (auto simp: get_or_create_refund_existing)
  show "tid \<notin> set (map r_original_tx (tbl_refund s0)) \<Longrightarrow>
         tbl_refund s2 = tbl_refund s0 @ [rec] \<and>
         rec = \<lparr>r_id = next_id s0, r_original_tx = tid, r_refund_tx = rtx\<rparr> \<and>
         next_id s2 = Suc (next_id s0)"
    using assms by (auto simp: get_or_create_refund_new)
qed

lemma refund_lines_Inr:
  assumes ok: "fst (refund_lines e s tid ids) = Inr r"
  obtains t rec s2 where
    "ids \<noteq> []" and "transaction_by_id s tid = Some t" and "t_status t = Finalized"
    and "length (selected_lines s tid ids) = length ids"
    and "filter (\<lambda>line. l_refunded_by line \<noteq> None) (selected_lines s tid ids) = []"
    and "get_or_create_refund
           (s\<lparr>tbl_pos_transaction := tbl_pos_transaction s @ [reversal_of s tid ids],
              next_id := Suc (next_id s)\<rparr>)
           tid (next_id s) = (Some rec, s2)"
proof -
  have ids: "ids \<noteq> []"
    by (rule ccontr) (use ok refund_lines_fails(1) [of ids e s tid] in simp)
  obtain t where t: "transaction_by_id s tid = Some t"
    by (cases "transaction_by_id s tid")
      (use ok ids refund_lines_fails(2) [of ids s tid e] in simp_all)
  have fin: "t_status t = Finalized"
    by (rule ccontr) (use ok ids t refund_lines_fails(3) [of ids s tid t e] in simp)
  have len: "length (selected_lines s tid ids) = length ids"
    by (rule ccontr) (use ok ids t fin refund_lines_fails(4) [of ids s tid t e] in simp)
  have fresh: "filter (\<lambda>line. l_refunded_by line \<noteq> None) (selected_lines s tid ids) = []"
    by (rule ccontr) (use ok ids t fin len refund_lines_fails(5) [of ids s tid t e] in simp)
  obtain ro s2 where g: "get_or_create_refund
           (s\<lparr>tbl_pos_transaction := tbl_pos_transaction s @ [reversal_of s tid ids],
              next_id := Suc (next_id s)\<rparr>)
           tid (next_id s) = (ro, s2)"
    by (cases "get_or_create_refund
           (s\<lparr>tbl_pos_transaction := tbl_pos_transaction s @ [reversal_of s tid ids],
              next_id := Suc (next_id s)\<rparr>)
           tid (next_id s)") auto
  obtain rec where "ro = Some rec"
    by (cases ro) (use ok refund_lines_proceeds(1) [OF ids t fin len fresh g, of e] in simp_all)
  with ids t fin len fresh g show ?thesis by (auto intro: that)
qed

lemma store_ok_alt:
  "store_ok s \<longleftrightarrow>
     distinct (map t_id (tbl_pos_transaction s)) \<and>
     distinct (map l_id (tbl_transaction_line s)) \<and>
     distinct (map r_original_tx (tbl_refund s)) \<and>
     (\<forall>k \<in> set (map t_id (tbl_pos_transaction s)). k < next_id s) \<and>
     (\<forall>k \<in> set (map l_id (tbl_transaction_line s)). k < next_id s) \<and>
     (\<forall>k \<in> set (map l_transaction_id (tbl_transaction_line s)).
        k \<in> set (map t_id (tbl_pos_transaction s))) \<and>
     (\<forall>k \<in> set (map r_id (tbl_refund s)). k < next_id s) \<and>
     (\<forall>k \<in> set (map r_refund_tx (tbl_refund s)). k < next_id s)"
  by (auto simp: store_ok_def list_all_iff)

lemma store_ok_known_transaction:
  assumes "store_ok s" and "tid \<in> set (map t_id (tbl_pos_transaction s))"
  shows "\<exists>t. transaction_by_id s tid = Some t"
proof -
  from assms(2) obtain t where t: "t \<in> set (tbl_pos_transaction s)" "t_id t = tid"
    by auto
  have "distinct (map t_id (tbl_pos_transaction s))"
    using assms(1) by (simp add: store_ok_def)
  from filter_key_distinct [OF this t(1)] t(2) show ?thesis
    by (simp add: transaction_by_id_def)
qed

lemma store_ok_known_refund:
  assumes "store_ok s" and "tid \<in> set (map r_original_tx (tbl_refund s))"
  shows "\<exists>x. single (filter (\<lambda>r. r_original_tx r = tid) (tbl_refund s)) = Some x"
proof -
  from assms(2) obtain x where x: "x \<in> set (tbl_refund s)" "r_original_tx x = tid"
    by auto
  have "distinct (map r_original_tx (tbl_refund s))"
    using assms(1) by (simp add: store_ok_def)
  from filter_key_distinct [OF this x(1)] x(2) show ?thesis
    by simp
qed

section \<open>What a successful refund leaves behind\<close>


lemma refund_lines_cases:
  obtains (failed) err where "refund_lines e s tid ids = (Inl err, s)"
  | (broken) s2 where "refund_lines e s tid ids = (Inl InternalError, s2)"
      "tbl_transaction_line s2 = tbl_transaction_line s"
      "get_or_create_refund
         (s\<lparr>tbl_pos_transaction := tbl_pos_transaction s @ [reversal_of s tid ids],
            next_id := Suc (next_id s)\<rparr>)
         tid (next_id s) = (None, s2)"
  | (refunded) r where "fst (refund_lines e s tid ids) = Inr r"
proof (cases "ids = []")
  case True
  then show ?thesis using failed refund_lines_fails(1) by blast
next
  case ids: False
  show ?thesis
  proof (cases "transaction_by_id s tid")
    case None
    then show ?thesis using ids failed refund_lines_fails(2) by blast
  next
    case (Some t)
    show ?thesis
    proof (cases "t_status t = Finalized")
      case False
      then show ?thesis using ids Some failed refund_lines_fails(3) by blast
    next
      case fin: True
      show ?thesis
      proof (cases "length (selected_lines s tid ids) = length ids")
        case False
        then show ?thesis using ids Some fin failed refund_lines_fails(4) by blast
      next
        case len: True
        show ?thesis
        proof (cases "filter (\<lambda>line. l_refunded_by line \<noteq> None) (selected_lines s tid ids) = []")
          case False
          then show ?thesis using ids Some fin len failed refund_lines_fails(5) by blast
        next
          case fresh: True
          obtain ro s2 where g: "get_or_create_refund
              (s\<lparr>tbl_pos_transaction := tbl_pos_transaction s @ [reversal_of s tid ids],
                 next_id := Suc (next_id s)\<rparr>)
              tid (next_id s) = (ro, s2)"
            by (cases "get_or_create_refund
              (s\<lparr>tbl_pos_transaction := tbl_pos_transaction s @ [reversal_of s tid ids],
                 next_id := Suc (next_id s)\<rparr>)
              tid (next_id s)") auto
          show ?thesis
          proof (cases ro)
            case None
            have "refund_lines e s tid ids = (Inl InternalError, s2)"
              using refund_lines_proceeds(1) [OF ids Some fin len fresh g None] .
            moreover have "tbl_transaction_line s2 = tbl_transaction_line s"
              using get_or_create_refund_frame(2) [OF g] by simp
            moreover note g [unfolded None]
            ultimately show ?thesis by (rule broken)
          next
            case (Some rec)
            have "\<exists>r. fst (refund_lines e s tid ids) = Inr r"
              using refund_lines_proceeds(2) [OF ids \<open>transaction_by_id s tid = Some t\<close>
                  fin len fresh g Some, of e] by simp
            then show ?thesis using refunded by blast
          qed
        qed
      qed
    qed
  qed
qed

text \<open>
  With unique line ids, the length check of the handler passes only when the requested
  ids are pairwise different and every one of them is a line of the transaction.
\<close>

lemma selected_lines_cover:
  assumes "distinct (map l_id (tbl_transaction_line s))"
    and "length (selected_lines s tid ids) = length ids"
  shows "set ids = l_id ` set (selected_lines s tid ids)"
proof -
  let ?sel = "selected_lines s tid ids"
  have "distinct (map l_id ?sel)"
    using assms(1) by (simp add: selected_lines_def lines_of_def distinct_map_filter)
  then have "card (l_id ` set ?sel) = length ?sel"
    by (metis distinct_card length_map set_map)
  moreover have "card (set ids) \<le> length ids"
    by (rule card_length)
  moreover have sub: "l_id ` set ?sel \<subseteq> set ids"
    by (auto simp: selected_lines_def)
  then have "card (l_id ` set ?sel) \<le> card (set ids)"
    by (simp add: card_mono)
  ultimately have "card (l_id ` set ?sel) = card (set ids)"
    using assms(2) by simp
  with sub have "l_id ` set ?sel = set ids"
    by (intro card_subset_eq) simp_all
  then show ?thesis by simp
qed

section \<open>Recomputed totals are kept by the handlers\<close>




section \<open>Totals at the observation points (claim C1)\<close>




section \<open>Payments are signed (claim C9)\<close>



section \<open>Status of the original transaction after a refund (claim C6)\<close>

text \<open>
  Claim C6. After a successful refund the original transaction is still retrievable; its
  status is \<^verbatim>\<open>refunded\<close> if and only if every one of its lines now has \<^verbatim>\<open>refunded_by\<close> set,
  and otherwise it is still \<^verbatim>\<open>finalized\<close>; the returned \<^verbatim>\<open>isPartial\<close> flag holds exactly
  when some line of the original transaction is still without \<^verbatim>\<open>refunded_by\<close>.
\<close>

theorem refund_status_and_partial_flag:
  assumes wf: "store_ok s" and ok: "fst (refund_lines e s tid ids) = Inr r"
  shows "\<exists>t'. transaction_by_id (snd (refund_lines e s tid ids)) tid = Some t' \<and>
     (t_status t' = Refunded \<longleftrightarrow>
        (\<forall>l \<in> set (lines_of (snd (refund_lines e s tid ids)) tid). l_refunded_by l \<noteq> None)) \<and>
     (t_status t' \<noteq> Refunded \<longrightarrow> t_status t' = Finalized) \<and>
     (rr_isPartial r \<longleftrightarrow>
        (\<exists>l \<in> set (lines_of (snd (refund_lines e s tid ids)) tid). l_refunded_by l = None))"
proof -
  let ?s' = "snd (refund_lines e s tid ids)"
  from ok obtain t rec s2 where c:
    "ids \<noteq> []" "transaction_by_id s tid = Some t" "t_status t = Finalized"
    "length (selected_lines s tid ids) = length ids"
    "filter (\<lambda>line. l_refunded_by line \<noteq> None) (selected_lines s tid ids) = []"
    "get_or_create_refund
       (s\<lparr>tbl_pos_transaction := tbl_pos_transaction s @ [reversal_of s tid ids],
          next_id := Suc (next_id s)\<rparr>)
       tid (next_id s) = (Some rec, s2)"
    by (rule refund_lines_Inr)
  note res = refund_lines_proceeds(2-8) [OF c refl, of e]
  have lines: "lines_of ?s' tid =
      filter (\<lambda>l. l_transaction_id l = tid)
        (mark_refunded (r_id rec) (tbl_transaction_line s) ids)"
    by (simp add: lines_of_def res(2))
  have flag: "rr_isPartial r \<longleftrightarrow> (\<exists>l \<in> set (lines_of ?s' tid). l_refunded_by l = None)"
    using ok res(1) by (auto simp: lines list_ex_iff)
  have below: "tid < next_id s"
    using wf c(2) by (rule store_ok_known_below)
  have key: "t_id t = tid"
    using c(2) by (rule transaction_by_id_key)
  have one: "filter (\<lambda>t. t_id t = tid) (tbl_pos_transaction s) = [t]"
    using c(2) by (simp add: transaction_by_id_def single_Some_iff)
  have all_iff: "list_all (\<lambda>line. l_refunded_by line \<noteq> None)
        (filter (\<lambda>l. l_transaction_id l = tid)
           (mark_refunded (r_id rec) (tbl_transaction_line s) ids)) \<longleftrightarrow>
      (\<forall>l \<in> set (lines_of ?s' tid). l_refunded_by l \<noteq> None)"
    unfolding lines list_all_iff ..
  show ?thesis
  proof (cases "list_all (\<lambda>line. l_refunded_by line \<noteq> None)
        (filter (\<lambda>l. l_transaction_id l = tid)
           (mark_refunded (r_id rec) (tbl_transaction_line s) ids))")
    case True
    then have "tbl_pos_transaction ?s' =
        update_where (\<lambda>t. t_id t = tid) (\<lambda>t. t\<lparr>t_status := Refunded\<rparr>)
          (tbl_pos_transaction s @ [reversal_of s tid ids])"
      by (simp only: res(3) if_True)
    then have "transaction_by_id ?s' tid = Some (t\<lparr>t_status := Refunded\<rparr>)"
      using below one key
      by (simp add: transaction_by_id_def filter_update_where_same [where key = t_id])
    moreover have "\<forall>l \<in> set (lines_of ?s' tid). l_refunded_by l \<noteq> None"
      using True all_iff by blast
    ultimately show ?thesis using flag by simp
  next
    case False
    then have "tbl_pos_transaction ?s' = tbl_pos_transaction s @ [reversal_of s tid ids]"
      by (simp only: res(3) if_False)
    then have "transaction_by_id ?s' tid = Some t"
      using below one by (simp add: transaction_by_id_def)
    moreover have "\<not> (\<forall>l \<in> set (lines_of ?s' tid). l_refunded_by l \<noteq> None)"
      using False all_iff by blast
    ultimately show ?thesis using flag c(3) by simp
  qed
qed

text \<open>
  The theorem at the two-line sale: refunding the Coca Cola line alone leaves transaction 2
  \<^verbatim>\<open>finalized\<close> with the flag set; refunding the Chips line afterwards turns it to
  \<^verbatim>\<open>refunded\<close> with the flag cleared.
\<close>

theorem refund_status_and_partial_flag_witness:
  "store_ok sold_two_store \<and> store_ok part_refunded_store \<and>
   map t_status (filter (\<lambda>t. t_id t = 2) (tbl_pos_transaction part_refunded_store)) =
     [Finalized] \<and>
   map l_refunded_by (lines_of part_refunded_store 2) = [Some 7, None] \<and>
   (\<exists>r. fst (refund_lines no_error sold_two_store 2 [3]) = Inr r \<and> rr_isPartial r) \<and>
   (\<exists>t'. transaction_by_id (snd (refund_lines no_error part_refunded_store 2 [4])) 2 = Some t' \<and>
      t_status t' = Refunded) \<and>
   (\<exists>r. fst (refund_lines no_error part_refunded_store 2 [4]) = Inr r \<and> \<not> rr_isPartial r)"
proof -
  have wf1: "store_ok sold_two_store" and wf2: "store_ok part_refunded_store"
    by code_simp+
  have st: "map t_status (filter (\<lambda>t. t_id t = 2) (tbl_pos_transaction part_refunded_store)) =
     [Finalized]"
    by code_simp
  have marks: "map l_refunded_by (lines_of part_refunded_store 2) = [Some 7, None]"
    by code_simp
  have r1: "fst (refund_lines no_error sold_two_store 2 [3]) =
      Inr \<lparr>rr_refundAmount = 13 / 4,
           rr_originalTransaction = \<lparr>t_id = 2, t_status = Finalized, t_subtotal = 997 / 100,
                                     t_tax = 6979 / 8000, t_total = 86739 / 8000\<rparr>,
           rr_refundTransaction = \<lparr>t_id = 6, t_status = Finalized, t_subtotal = 299 / 100,
                                   t_tax = 13 / 50, t_total = 13 / 4\<rparr>,
           rr_isPartial = True\<rparr>"
    by code_simp
  have r2: "fst (refund_lines no_error part_refunded_store 2 [4]) =
      Inr \<lparr>rr_refundAmount = 759 / 100,
           rr_originalTransaction = \<lparr>t_id = 2, t_status = Finalized, t_subtotal = 997 / 100,
                                     t_tax = 6979 / 8000, t_total = 86739 / 8000\<rparr>,
           rr_refundTransaction = \<lparr>t_id = 9, t_status = Finalized, t_subtotal = 349 / 50,
                                   t_tax = 61 / 100, t_total = 759 / 100\<rparr>,
           rr_isPartial = False\<rparr>"
    by code_simp
  have all: "\<forall>l \<in> set (lines_of (snd (refund_lines no_error part_refunded_store 2 [4])) 2).
      l_refunded_by l \<noteq> None"
    by code_simp
  from refund_status_and_partial_flag [OF wf2 r2] all
  obtain t' where "transaction_by_id (snd (refund_lines no_error part_refunded_store 2 [4])) 2 =
      Some t'" "t_status t' = Refunded"
    by auto
  with wf1 wf2 st marks r1 r2 show ?thesis by simp
qed

section \<open>Every refund call creates a reversal transaction (claim C10)\<close>





section \<open>A refund keeps the datastore constraints\<close>

lemma mark_refunded_ids:
  "map l_id (mark_refunded refundId lines ids) = map l_id lines"
  "map l_transaction_id (mark_refunded refundId lines ids) = map l_transaction_id lines"
  unfolding mark_refunded_map by (induction lines) auto

lemma refund_lines_store_ok:
  assumes wf: "store_ok s" and ok: "fst (refund_lines e s tid ids) = Inr r"
  shows "store_ok (snd (refund_lines e s tid ids))"
proof -
  let ?s' = "snd (refund_lines e s tid ids)"
  let ?s1 = "s\<lparr>tbl_pos_transaction := tbl_pos_transaction s @ [reversal_of s tid ids],
          next_id := Suc (next_id s)\<rparr>"
  from ok obtain t rec s2 where c:
    "ids \<noteq> []" "transaction_by_id s tid = Some t" "t_status t = Finalized"
    "length (selected_lines s tid ids) = length ids"
    "filter (\<lambda>line. l_refunded_by line \<noteq> None) (selected_lines s tid ids) = []"
    "get_or_create_refund ?s1 tid (next_id s) = (Some rec, s2)"
    by (rule refund_lines_Inr)
  note res = refund_lines_proceeds(2-8) [OF c refl, of e]
  have txs: "map t_id (tbl_pos_transaction ?s') = map t_id (tbl_pos_transaction s) @ [next_id s]"
    by (simp add: res(3) map_key_update_where [where key = t_id])
  have lines: "map l_id (tbl_transaction_line ?s') = map l_id (tbl_transaction_line s)"
    "map l_transaction_id (tbl_transaction_line ?s') =
       map l_transaction_id (tbl_transaction_line s)"
    by (simp_all add: res(2) mark_refunded_ids)
  have refunds: "tbl_refund ?s' = tbl_refund s2" and n: "next_id ?s' = Suc (next_id s2)"
    by (simp_all add: res(4) res(7))
  have old: "distinct (map t_id (tbl_pos_transaction s))"
      "distinct (map l_id (tbl_transaction_line s))"
      "distinct (map r_original_tx (tbl_refund s))"
      "\<forall>t \<in> set (tbl_pos_transaction s). t_id t < next_id s"
      "\<forall>l \<in> set (tbl_transaction_line s). l_id l < next_id s \<and>
          l_transaction_id l \<in> set (map t_id (tbl_pos_transaction s))"
      "\<forall>x \<in> set (tbl_refund s). r_id x < next_id s \<and> r_refund_tx x < next_id s"
    using wf by (simp_all add: store_ok_def list_all_iff)
  have rows: "distinct (map r_original_tx (tbl_refund s2)) \<and>
      (\<forall>x \<in> set (tbl_refund s2). r_id x < Suc (next_id s2) \<and> r_refund_tx x < Suc (next_id s2)) \<and>
      Suc (next_id s) \<le> next_id s2"
  proof (cases "tid \<in> set (map r_original_tx (tbl_refund ?s1))")
    case True
    then have "tbl_refund s2 = tbl_refund s" "next_id s2 = Suc (next_id s)"
      using get_or_create_refund_Some(2) [OF c(6)] by simp_all
    then show ?thesis using old(3,6) by auto
  next
    case False
    then have "tbl_refund s2 = tbl_refund s @ [rec]"
      "rec = \<lparr>r_id = Suc (next_id s), r_original_tx = tid, r_refund_tx = next_id s\<rparr>"
      "next_id s2 = Suc (Suc (next_id s))"
      using get_or_create_refund_Some(3) [OF c(6)] by simp_all
    then show ?thesis using old(3,6) False by auto
  qed
  have a1: "distinct (map t_id (tbl_pos_transaction ?s'))"
    unfolding txs using old(1,4) by auto
  have a2: "distinct (map l_id (tbl_transaction_line ?s'))"
    unfolding lines using old(2) .
  have a3: "distinct (map r_original_tx (tbl_refund ?s'))"
    unfolding refunds using rows by simp
  have a4: "\<forall>t \<in> set (tbl_pos_transaction ?s'). t_id t < next_id ?s'"
  proof
    fix x
    assume "x \<in> set (tbl_pos_transaction ?s')"
    then have "t_id x \<in> set (map t_id (tbl_pos_transaction ?s'))"
      by simp
    then have "t_id x \<in> set (map t_id (tbl_pos_transaction s)) \<or> t_id x = next_id s"
      unfolding txs by auto
    then have "t_id x \<le> next_id s"
      using old(4) by auto
    then show "t_id x < next_id ?s'"
      using rows n by simp
  qed
  have a5: "\<forall>l \<in> set (tbl_transaction_line ?s'). l_id l < next_id ?s' \<and>
      l_transaction_id l \<in> set (map t_id (tbl_pos_transaction ?s'))"
  proof
    fix l
    assume l: "l \<in> set (tbl_transaction_line ?s')"
    then have "l_id l \<in> set (map l_id (tbl_transaction_line ?s'))"
      and "l_transaction_id l \<in> set (map l_transaction_id (tbl_transaction_line ?s'))"
      by simp_all
    then have "l_id l \<in> l_id ` set (tbl_transaction_line s)"
      and "l_transaction_id l \<in> l_transaction_id ` set (tbl_transaction_line s)"
      unfolding lines by simp_all
    then have "l_id l < next_id s"
      and "l_transaction_id l \<in> set (map t_id (tbl_pos_transaction s))"
      using old(5) by auto
    then show "l_id l < next_id ?s' \<and>
        l_transaction_id l \<in> set (map t_id (tbl_pos_transaction ?s'))"
      unfolding txs using rows n by simp
  qed
  have a6: "\<forall>x \<in> set (tbl_refund ?s'). r_id x < next_id ?s' \<and> r_refund_tx x < next_id ?s'"
    unfolding refunds n using rows by simp
  show ?thesis
    unfolding store_ok_def list_all_iff using a1 a2 a3 a4 a5 a6 by simp
qed

section \<open>One refund row per original transaction (claim C7)\<close>

lemma refund_marks_with_record:
  assumes ok: "fst (refund_lines e s tid ids) = Inr r"
  shows "\<exists>rec. filter (\<lambda>x. r_original_tx x = tid) (tbl_refund (snd (refund_lines e s tid ids))) =
           [rec] \<and>
     (tid \<notin> set (map r_original_tx (tbl_refund s)) \<longrightarrow>
        tbl_refund (snd (refund_lines e s tid ids)) = tbl_refund s @ [rec]) \<and>
     (tid \<in> set (map r_original_tx (tbl_refund s)) \<longrightarrow>
        tbl_refund (snd (refund_lines e s tid ids)) = tbl_refund s) \<and>
     tbl_transaction_line (snd (refund_lines e s tid ids)) =
       map (\<lambda>l. if l_id l \<in> set ids then l\<lparr>l_refunded_by := Some (r_id rec)\<rparr> else l)
         (tbl_transaction_line s)"
proof -
  from ok obtain t rec s2 where c:
    "ids \<noteq> []" "transaction_by_id s tid = Some t" "t_status t = Finalized"
    "length (selected_lines s tid ids) = length ids"
    "filter (\<lambda>line. l_refunded_by line \<noteq> None) (selected_lines s tid ids) = []"
    "get_or_create_refund
       (s\<lparr>tbl_pos_transaction := tbl_pos_transaction s @ [reversal_of s tid ids],
          next_id := Suc (next_id s)\<rparr>)
       tid (next_id s) = (Some rec, s2)"
    by (rule refund_lines_Inr)
  note res = refund_lines_proceeds(2-8) [OF c refl, of e]
  note g = get_or_create_refund_Some [OF c(6)]
  have "filter (\<lambda>x. r_original_tx x = tid) (tbl_refund (snd (refund_lines e s tid ids))) = [rec]"
    using g(1) by (simp add: res(4))
  moreover have "tid \<notin> set (map r_original_tx (tbl_refund s)) \<longrightarrow>
      tbl_refund (snd (refund_lines e s tid ids)) = tbl_refund s @ [rec]"
    using g(3) by (simp add: res(4))
  moreover have "tid \<in> set (map r_original_tx (tbl_refund s)) \<longrightarrow>
      tbl_refund (snd (refund_lines e s tid ids)) = tbl_refund s"
    using g(2) by (simp add: res(4))
  moreover have "tbl_transaction_line (snd (refund_lines e s tid ids)) =
       map (\<lambda>l. if l_id l \<in> set ids then l\<lparr>l_refunded_by := Some (r_id rec)\<rparr> else l)
         (tbl_transaction_line s)"
    by (simp add: res(2) mark_refunded_map)
  ultimately show ?thesis by blast
qed

text \<open>
  Claim C7. The refund table keeps at most one row per original transaction (a constraint
  of the datastore, which a refund preserves). After a successful refund there is exactly
  one row for the original transaction: the call appended it when none existed, and left
  the table as it was, reusing the existing row, otherwise. The lines the call selected
  carry the id of that row. In any later successful refund of the same original
  transaction, made on the resulting store, the row and the table are the same, and the
  lines selected by either call carry that one id.
\<close>

theorem refund_record_is_shared:
  assumes wf: "store_ok s" and ok: "fst (refund_lines e s tid ids) = Inr r"
  shows "\<exists>rec.
     filter (\<lambda>x. r_original_tx x = tid) (tbl_refund (snd (refund_lines e s tid ids))) = [rec] \<and>
     distinct (map r_original_tx (tbl_refund (snd (refund_lines e s tid ids)))) \<and>
     store_ok (snd (refund_lines e s tid ids)) \<and>
     (tid \<notin> set (map r_original_tx (tbl_refund s)) \<longrightarrow>
        tbl_refund (snd (refund_lines e s tid ids)) = tbl_refund s @ [rec]) \<and>
     (\<forall>rec0 \<in> set (tbl_refund s). r_original_tx rec0 = tid \<longrightarrow>
        rec0 = rec \<and> tbl_refund (snd (refund_lines e s tid ids)) = tbl_refund s) \<and>
     (\<forall>l \<in> set (lines_of (snd (refund_lines e s tid ids)) tid).
        l_id l \<in> set ids \<longrightarrow> l_refunded_by l = Some (r_id rec)) \<and>
     (\<forall>e2 ids2 r2.
        fst (refund_lines e2 (snd (refund_lines e s tid ids)) tid ids2) = Inr r2 \<longrightarrow>
        tbl_refund (snd (refund_lines e2 (snd (refund_lines e s tid ids)) tid ids2)) =
          tbl_refund (snd (refund_lines e s tid ids)) \<and>
        (\<forall>l \<in> set (lines_of (snd (refund_lines e2 (snd (refund_lines e s tid ids)) tid ids2)) tid).
           l_id l \<in> set ids \<union> set ids2 \<longrightarrow> l_refunded_by l = Some (r_id rec)))"
proof -
  let ?s1 = "snd (refund_lines e s tid ids)"
  from refund_marks_with_record [OF ok] obtain rec where rec:
    "filter (\<lambda>x. r_original_tx x = tid) (tbl_refund ?s1) = [rec]"
    "tid \<notin> set (map r_original_tx (tbl_refund s)) \<longrightarrow> tbl_refund ?s1 = tbl_refund s @ [rec]"
    "tid \<in> set (map r_original_tx (tbl_refund s)) \<longrightarrow> tbl_refund ?s1 = tbl_refund s"
    "tbl_transaction_line ?s1 =
       map (\<lambda>l. if l_id l \<in> set ids then l\<lparr>l_refunded_by := Some (r_id rec)\<rparr> else l)
         (tbl_transaction_line s)"
    by blast
  have wf1: "store_ok ?s1"
    using wf ok by (rule refund_lines_store_ok)
  then have dist: "distinct (map r_original_tx (tbl_refund ?s1))"
    by (simp add: store_ok_def)
  have reuse: "rec0 = rec \<and> tbl_refund ?s1 = tbl_refund s"
    if "rec0 \<in> set (tbl_refund s)" "r_original_tx rec0 = tid" for rec0
  proof -
    have "tid \<in> set (map r_original_tx (tbl_refund s))"
      using that by force
    with rec(3) have same: "tbl_refund ?s1 = tbl_refund s" by simp
    with that have "rec0 \<in> set (filter (\<lambda>x. r_original_tx x = tid) (tbl_refund ?s1))"
      by simp
    with rec(1) same show ?thesis by simp
  qed
  have marked: "l_refunded_by l = Some (r_id rec)"
    if "l \<in> set (lines_of ?s1 tid)" "l_id l \<in> set ids" for l
    using that by (auto simp: lines_of_def rec(4))
  have later: "tbl_refund (snd (refund_lines e2 ?s1 tid ids2)) = tbl_refund ?s1 \<and>
      (\<forall>l \<in> set (lines_of (snd (refund_lines e2 ?s1 tid ids2)) tid).
         l_id l \<in> set ids \<union> set ids2 \<longrightarrow> l_refunded_by l = Some (r_id rec))"
    if ok2: "fst (refund_lines e2 ?s1 tid ids2) = Inr r2" for e2 ids2 r2
  proof -
    let ?s2 = "snd (refund_lines e2 ?s1 tid ids2)"
    have known: "tid \<in> set (map r_original_tx (tbl_refund ?s1))"
    proof -
      have "rec \<in> set (filter (\<lambda>x. r_original_tx x = tid) (tbl_refund ?s1))"
        unfolding rec(1) by simp
      then show ?thesis by force
    qed
    from refund_marks_with_record [OF ok2] obtain rec2 where rec2:
      "filter (\<lambda>x. r_original_tx x = tid) (tbl_refund ?s2) = [rec2]"
      "tid \<in> set (map r_original_tx (tbl_refund ?s1)) \<longrightarrow> tbl_refund ?s2 = tbl_refund ?s1"
      "tbl_transaction_line ?s2 =
         map (\<lambda>l. if l_id l \<in> set ids2 then l\<lparr>l_refunded_by := Some (r_id rec2)\<rparr> else l)
           (tbl_transaction_line ?s1)"
      by blast
    have same: "tbl_refund ?s2 = tbl_refund ?s1"
      using rec2(2) known by simp
    then have "rec2 = rec"
      using rec(1) rec2(1) by simp
    then have lines2: "tbl_transaction_line ?s2 =
         map (\<lambda>l. if l_id l \<in> set ids2 then l\<lparr>l_refunded_by := Some (r_id rec)\<rparr> else l)
           (map (\<lambda>l. if l_id l \<in> set ids then l\<lparr>l_refunded_by := Some (r_id rec)\<rparr> else l)
              (tbl_transaction_line s))"
      using rec2(3) rec(4) by simp
    have "l_refunded_by l = Some (r_id rec)"
      if "l \<in> set (lines_of ?s2 tid)" "l_id l \<in> set ids \<union> set ids2" for l
      using that unfolding lines_of_def lines2 by (auto split: if_splits)
    with same show ?thesis by blast
  qed
  show ?thesis
    using rec(1,2) dist wf1 reuse marked later by blast
qed

text \<open>
  The theorem at the two-line sale, refunded in two partial calls: the first call (line 3)
  appends the refund row 7, the second call (line 4) leaves the table with that one row,
  and both lines end up marked with 7.
\<close>

theorem refund_record_is_shared_witness:
  "store_ok sold_two_store \<and>
   tbl_refund sold_two_store = [] \<and>
   tbl_refund part_refunded_store = [\<lparr>r_id = 7, r_original_tx = 2, r_refund_tx = 6\<rparr>] \<and>
   tbl_refund (snd (refund_lines no_error part_refunded_store 2 [4])) =
     [\<lparr>r_id = 7, r_original_tx = 2, r_refund_tx = 6\<rparr>] \<and>
   map l_id (lines_of (snd (refund_lines no_error part_refunded_store 2 [4])) 2) = [3, 4] \<and>
   list_all (\<lambda>l. l_refunded_by l = Some 7)
     (lines_of (snd (refund_lines no_error part_refunded_store 2 [4])) 2)"
proof -
  let ?s2 = "snd (refund_lines no_error part_refunded_store 2 [4])"
  have wf: "store_ok sold_two_store"
    by code_simp
  have none: "tbl_refund sold_two_store = []"
    by code_simp
  have r1: "fst (refund_lines no_error sold_two_store 2 [3]) =
      Inr \<lparr>rr_refundAmount = 13 / 4,
           rr_originalTransaction = \<lparr>t_id = 2, t_status = Finalized, t_subtotal = 997 / 100,
                                     t_tax = 6979 / 8000, t_total = 86739 / 8000\<rparr>,
           rr_refundTransaction = \<lparr>t_id = 6, t_status = Finalized, t_subtotal = 299 / 100,
                                   t_tax = 13 / 50, t_total = 13 / 4\<rparr>,
           rr_isPartial = True\<rparr>"
    by code_simp
  have r2: "fst (refund_lines no_error part_refunded_store 2 [4]) =
      Inr \<lparr>rr_refundAmount = 759 / 100,
           rr_originalTransaction = \<lparr>t_id = 2, t_status = Finalized, t_subtotal = 997 / 100,
                                     t_tax = 6979 / 8000, t_total = 86739 / 8000\<rparr>,
           rr_refundTransaction = \<lparr>t_id = 9, t_status = Finalized, t_subtotal = 349 / 50,
                                   t_tax = 61 / 100, t_total = 759 / 100\<rparr>,
           rr_isPartial = False\<rparr>"
    by code_simp
  have row: "tbl_refund part_refunded_store = [\<lparr>r_id = 7, r_original_tx = 2, r_refund_tx = 6\<rparr>]"
    by code_simp
  have ids: "map l_id (lines_of ?s2 2) = [3, 4]"
    by code_simp
  from refund_record_is_shared [OF wf r1] obtain rec where rec:
    "filter (\<lambda>x. r_original_tx x = 2) (tbl_refund part_refunded_store) = [rec]"
    "tbl_refund ?s2 = tbl_refund part_refunded_store"
    "\<forall>l \<in> set (lines_of ?s2 2). l_id l \<in> set [3] \<union> set [4] \<longrightarrow> l_refunded_by l = Some (r_id rec)"
    unfolding part_refunded_store_def [symmetric] using r2 by blast
  have "rec = \<lparr>r_id = 7, r_original_tx = 2, r_refund_tx = 6\<rparr>"
    using rec(1) unfolding row by simp
  then have seven: "r_id rec = 7" by simp
  have "l_refunded_by l = Some 7" if "l \<in> set (lines_of ?s2 2)" for l
  proof -
    from that have "l_id l \<in> set (map l_id (lines_of ?s2 2))"
      by simp
    then have "l_id l \<in> set [3] \<union> set [4]"
      unfolding ids by auto
    with rec(3) that seven show ?thesis by auto
  qed
  then have "list_all (\<lambda>l. l_refunded_by l = Some 7) (lines_of ?s2 2)"
    by (simp add: list_all_iff)
  with wf none row rec(2) ids show ?thesis by simp
qed

section \<open>Refund: validation and no second refund of a line (claim C5)\<close>

lemma refund_lines_Inl:
  assumes "fst (refund_lines e s tid ids) = Inl err"
  shows "tbl_transaction_line (snd (refund_lines e s tid ids)) = tbl_transaction_line s"
  using assms by (cases rule: refund_lines_cases [of e s tid ids]) simp_all

lemma refunded_line_not_selectable:
  assumes wf: "store_ok s" and ok: "fst (refund_lines e s tid ids) = Inr r"
    and l: "l \<in> set (tbl_transaction_line s)" "l_refunded_by l \<noteq> None"
  shows "l_id l \<notin> set ids"
proof
  assume sel: "l_id l \<in> set ids"
  from ok obtain t rec s2 where c:
    "ids \<noteq> []" "transaction_by_id s tid = Some t" "t_status t = Finalized"
    "length (selected_lines s tid ids) = length ids"
    "filter (\<lambda>line. l_refunded_by line \<noteq> None) (selected_lines s tid ids) = []"
    "get_or_create_refund
       (s\<lparr>tbl_pos_transaction := tbl_pos_transaction s @ [reversal_of s tid ids],
          next_id := Suc (next_id s)\<rparr>)
       tid (next_id s) = (Some rec, s2)"
    by (rule refund_lines_Inr)
  have dist: "distinct (map l_id (tbl_transaction_line s))"
    using wf by (simp add: store_ok_def)
  from selected_lines_cover [OF dist c(4)] sel
  obtain l' where l': "l' \<in> set (selected_lines s tid ids)" "l_id l' = l_id l"
    by auto
  then have "l' \<in> set (tbl_transaction_line s)"
    by (simp add: selected_lines_def lines_of_def)
  with dist l(1) l'(2) have "l' = l"
    by (meson distinct_map inj_onD)
  with l' l(2) have "l \<in> set (filter (\<lambda>line. l_refunded_by line \<noteq> None)
      (selected_lines s tid ids))"
    by simp
  with c(5) show False by simp
qed

text \<open>
  Claim C5. The checks of refund apply in the order the claim lists them, each to a request
  that passed the ones before: an empty selection is InvalidInput; an unknown transaction
  is NotFound; a transaction that is not \<^verbatim>\<open>finalized\<close> is InvalidState; a selection with an
  id that is not a line of the transaction, or with a line whose \<^verbatim>\<open>refunded_by\<close> is set, is
  InvalidInput. Whenever the call fails, the table of lines is left as it was. A line
  whose \<^verbatim>\<open>refunded_by\<close> is set is kept as it is by every call, and every call that selects
  it fails, whatever transaction the call names. Line ids are unique (primary key).
\<close>

theorem refund_validation:
  assumes wf: "store_ok s"
  shows
  "(ids = [] \<longrightarrow> fst (refund_lines e s tid ids) = Inl InvalidInput) \<and>
   (ids \<noteq> [] \<and> transaction_by_id s tid = None \<longrightarrow>
      fst (refund_lines e s tid ids) = Inl NotFound) \<and>
   (\<forall>t. ids \<noteq> [] \<and> transaction_by_id s tid = Some t \<and> t_status t \<noteq> Finalized \<longrightarrow>
      fst (refund_lines e s tid ids) = Inl InvalidState) \<and>
   (\<forall>t. ids \<noteq> [] \<and> transaction_by_id s tid = Some t \<and> t_status t = Finalized \<and>
        ((\<exists>i \<in> set ids. i \<notin> l_id ` set (lines_of s tid)) \<or>
         (\<exists>l \<in> set (lines_of s tid). l_id l \<in> set ids \<and> l_refunded_by l \<noteq> None)) \<longrightarrow>
      fst (refund_lines e s tid ids) = Inl InvalidInput) \<and>
   (\<forall>err. fst (refund_lines e s tid ids) = Inl err \<longrightarrow>
      tbl_transaction_line (snd (refund_lines e s tid ids)) = tbl_transaction_line s) \<and>
   (\<forall>l \<in> set (tbl_transaction_line s). l_refunded_by l \<noteq> None \<longrightarrow>
      l \<in> set (tbl_transaction_line (snd (refund_lines e s tid ids))) \<and>
      (l_id l \<in> set ids \<longrightarrow> (\<exists>err. fst (refund_lines e s tid ids) = Inl err)))"
proof -
  let ?R = "refund_lines e s tid ids"
  have dist: "distinct (map l_id (tbl_transaction_line s))"
    using wf by (simp add: store_ok_def)
  have p1: "ids = [] \<longrightarrow> fst ?R = Inl InvalidInput"
    by (simp add: refund_lines_fails(1))
  have p2: "ids \<noteq> [] \<and> transaction_by_id s tid = None \<longrightarrow> fst ?R = Inl NotFound"
    by (simp add: refund_lines_fails(2))
  have p3: "fst ?R = Inl InvalidState"
    if "ids \<noteq> [] \<and> transaction_by_id s tid = Some t \<and> t_status t \<noteq> Finalized" for t
    using that refund_lines_fails(3) [of ids s tid t e] by simp
  have p4: "fst ?R = Inl InvalidInput"
    if h: "ids \<noteq> [] \<and> transaction_by_id s tid = Some t \<and> t_status t = Finalized \<and>
        ((\<exists>i \<in> set ids. i \<notin> l_id ` set (lines_of s tid)) \<or>
         (\<exists>l \<in> set (lines_of s tid). l_id l \<in> set ids \<and> l_refunded_by l \<noteq> None))" for t
  proof (cases "length (selected_lines s tid ids) = length ids")
    case False
    then show ?thesis
      using h refund_lines_fails(4) [of ids s tid t e] by simp
  next
    case True
    have sub: "l_id ` set (selected_lines s tid ids) \<subseteq> l_id ` set (lines_of s tid)"
      by (auto simp: selected_lines_def)
    have "set ids = l_id ` set (selected_lines s tid ids)"
      using dist True by (rule selected_lines_cover)
    with sub have "\<not> (\<exists>i \<in> set ids. i \<notin> l_id ` set (lines_of s tid))"
      by auto
    with h obtain l where "l \<in> set (lines_of s tid)" "l_id l \<in> set ids"
      "l_refunded_by l \<noteq> None"
      by blast
    then have "l \<in> set (filter (\<lambda>line. l_refunded_by line \<noteq> None)
        (selected_lines s tid ids))"
      by (simp add: selected_lines_def)
    then have "filter (\<lambda>line. l_refunded_by line \<noteq> None) (selected_lines s tid ids) \<noteq> []"
      by (metis empty_iff empty_set)
    then show ?thesis
      using h True refund_lines_fails(5) [of ids s tid t e] by simp
  qed
  have p5: "tbl_transaction_line (snd ?R) = tbl_transaction_line s"
    if "fst ?R = Inl err" for err
    using that by (rule refund_lines_Inl)
  have p6: "l \<in> set (tbl_transaction_line (snd ?R)) \<and>
      (l_id l \<in> set ids \<longrightarrow> (\<exists>err. fst ?R = Inl err))"
    if l: "l \<in> set (tbl_transaction_line s)" "l_refunded_by l \<noteq> None" for l
  proof (cases "fst ?R")
    case (Inl err)
    then show ?thesis using l(1) p5 by simp
  next
    case (Inr r)
    have out: "l_id l \<notin> set ids"
      using wf Inr l by (rule refunded_line_not_selectable)
    from refund_marks_with_record [OF Inr] obtain rec :: refund where
      "tbl_transaction_line (snd ?R) =
         map (\<lambda>l. if l_id l \<in> set ids then l\<lparr>l_refunded_by := Some (r_id rec)\<rparr> else l)
           (tbl_transaction_line s)"
      by blast
    then have "l \<in> set (tbl_transaction_line (snd ?R))"
      using l(1) out by force
    then show ?thesis using out by simp
  qed
  show ?thesis
    using p1 p2 p3 p4 p5 p6 by blast
qed

text \<open>
  The theorem at the partially refunded two-line sale (line 3 refunded, line 4 not):
  selecting line 3 again fails with InvalidInput, alone or together with line 4, and so
  does an id that is no line of the transaction; an empty selection, an unknown
  transaction and a transaction that is still open fail as the claim says; the lines are
  the same after each failure.
\<close>

theorem refund_validation_witness:
  "store_ok part_refunded_store \<and>
   map (\<lambda>l. (l_id l, l_refunded_by l)) (lines_of part_refunded_store 2) =
     [(3, Some 7), (4, None)] \<and>
   fst (refund_lines no_error part_refunded_store 2 [3]) = Inl InvalidInput \<and>
   fst (refund_lines no_error part_refunded_store 2 [4, 3]) = Inl InvalidInput \<and>
   fst (refund_lines no_error part_refunded_store 2 [8]) = Inl InvalidInput \<and>
   fst (refund_lines no_error part_refunded_store 2 []) = Inl InvalidInput \<and>
   fst (refund_lines no_error part_refunded_store 1 [3]) = Inl NotFound \<and>
   fst (refund_lines no_error one_line_store 2 [3]) = Inl InvalidState \<and>
   tbl_transaction_line (snd (refund_lines no_error part_refunded_store 2 [4, 3])) =
     tbl_transaction_line part_refunded_store"
proof -
  let ?t = "\<lparr>t_id = 2, t_status = Finalized, t_subtotal = 997 / 100, t_tax = 6979 / 8000,
            t_total = 86739 / 8000 :: rat\<rparr>"
  have wf: "store_ok part_refunded_store" and wf': "store_ok one_line_store"
    by code_simp+
  have lines: "map (\<lambda>l. (l_id l, l_refunded_by l)) (lines_of part_refunded_store 2) =
     [(3, Some 7), (4, None)]"
    by code_simp
  have t: "transaction_by_id part_refunded_store 2 = Some ?t"
    by code_simp
  have none: "transaction_by_id part_refunded_store 1 = None"
    by code_simp
  have op: "transaction_by_id one_line_store 2 =
      Some \<lparr>t_id = 2, t_status = Open, t_subtotal = 299 / 100, t_tax = 2093 / 8000,
            t_total = 26013 / 8000\<rparr>"
    by code_simp
  have again: "\<exists>l \<in> set (lines_of part_refunded_store 2).
      l_id l \<in> set [3] \<and> l_refunded_by l \<noteq> None"
    and again': "\<exists>l \<in> set (lines_of part_refunded_store 2).
      l_id l \<in> set [4, 3] \<and> l_refunded_by l \<noteq> None"
    and foreign: "\<exists>i \<in> set [8]. i \<notin> l_id ` set (lines_of part_refunded_store 2)"
    by code_simp+
  have a: "fst (refund_lines no_error part_refunded_store 2 [3]) = Inl InvalidInput"
    using refund_validation [OF wf, of "[3]" no_error 2] t again by simp
  have b: "fst (refund_lines no_error part_refunded_store 2 [4, 3]) = Inl InvalidInput"
    using refund_validation [OF wf, of "[4, 3]" no_error 2] t again' by simp
  have c: "fst (refund_lines no_error part_refunded_store 2 [8]) = Inl InvalidInput"
    using refund_validation [OF wf, of "[8]" no_error 2] t foreign by simp
  have d: "fst (refund_lines no_error part_refunded_store 2 []) = Inl InvalidInput"
    using refund_validation [OF wf, of "[]" no_error 2] by simp
  have e: "fst (refund_lines no_error part_refunded_store 1 [3]) = Inl NotFound"
    using refund_validation [OF wf, of "[3]" no_error 1] none by simp
  have f: "fst (refund_lines no_error one_line_store 2 [3]) = Inl InvalidState"
    using refund_validation [OF wf', of "[3]" no_error 2] op by simp
  have g: "tbl_transaction_line (snd (refund_lines no_error part_refunded_store 2 [4, 3])) =
     tbl_transaction_line part_refunded_store"
    using refund_validation [OF wf, of "[4, 3]" no_error 2] b by blast
  show ?thesis
    using wf lines a b c d e f g by simp
qed

section \<open>Refund: stock is added back\<close>

lemma increase_quantities_closed_form:
  "distinct (map i_id items) \<Longrightarrow>
   increase_quantities e items lines =
     map (\<lambda>it. if e (i_id it) then it
               else it\<lparr>i_quantity := i_quantity it +
                      sum_list (map l_quantity
                        (filter (\<lambda>line. l_item_id line = i_id it) lines))\<rparr>) items"
proof (induction lines arbitrary: items)
  case Nil
  then show ?case by (simp add: map_idI)
next
  case (Cons line rest)
  show ?case
  proof (cases "item_by_id items (l_item_id line)")
    case None
    then have "l_item_id line \<notin> i_id ` set items"
      using Cons.prems by (rule item_by_id_None [rotated])
    then have "\<forall>it \<in> set items. l_item_id line \<noteq> i_id it" by auto
    then show ?thesis
      using None Cons.IH [OF Cons.prems] by simp
  next
    case (Some item)
    then have item: "item \<in> set items" "i_id item = l_item_id line"
      using item_by_id_Some by auto
    have only: "it = item" if "it \<in> set items" "i_id it = l_item_id line" for it
      using that Some item_by_id_member [OF Cons.prems that(1)] by simp
    show ?thesis
    proof (cases "e (l_item_id line)")
      case True
      then show ?thesis
        using Some Cons.IH [OF Cons.prems] by auto
    next
      case False
      let ?items' = "update_where (\<lambda>i. i_id i = l_item_id line)
          (\<lambda>i. i\<lparr>i_quantity := i_quantity item + l_quantity line\<rparr>) items"
      have "map i_id ?items' = map i_id items"
        by (rule map_key_update_where) simp
      then have "distinct (map i_id ?items')"
        using Cons.prems by simp
      from Cons.IH [OF this] have
        "increase_quantities e items (line # rest) =
           map (\<lambda>it. if e (i_id it) then it
               else it\<lparr>i_quantity := i_quantity it +
                      sum_list (map l_quantity
                        (filter (\<lambda>line. l_item_id line = i_id it) rest))\<rparr>) ?items'"
        using Some False by (simp add: Let_def)
      also have "\<dots> = map (\<lambda>it. if e (i_id it) then it
               else it\<lparr>i_quantity := i_quantity it +
                      sum_list (map l_quantity
                        (filter (\<lambda>line. l_item_id line = i_id it) (line # rest)))\<rparr>) items"
        using only False by (auto simp: update_where_def)
      finally show ?thesis .
    qed
  qed
qed

text \<open>
  On a successful refund every item whose row does not fail gets back the quantities of
  the selected lines that sold it, without an upper bound; an item whose row fails keeps
  its row. Item ids are unique (primary key).
\<close>

theorem refund_restores_stock:
  assumes "distinct (map i_id (tbl_item s))" and "fst (refund_lines e s tid ids) = Inr r"
  shows "\<forall>it \<in> set (tbl_item s).
     item_by_id (tbl_item (snd (refund_lines e s tid ids))) (i_id it) =
       Some (if e (i_id it) then it
             else it\<lparr>i_quantity := i_quantity it +
                    sum_list (map l_quantity
                      (filter (\<lambda>line. l_item_id line = i_id it)
                         (selected_lines s tid ids)))\<rparr>)"
proof
  fix it
  assume it: "it \<in> set (tbl_item s)"
  let ?inc = "\<lambda>it. if e (i_id it) then it
             else it\<lparr>i_quantity := i_quantity it +
                    sum_list (map l_quantity
                      (filter (\<lambda>line. l_item_id line = i_id it)
                         (selected_lines s tid ids)))\<rparr>"
  from assms(2) obtain t rec s2 where c:
    "ids \<noteq> []" "transaction_by_id s tid = Some t" "t_status t = Finalized"
    "length (selected_lines s tid ids) = length ids"
    "filter (\<lambda>line. l_refunded_by line \<noteq> None) (selected_lines s tid ids) = []"
    "get_or_create_refund
       (s\<lparr>tbl_pos_transaction := tbl_pos_transaction s @ [reversal_of s tid ids],
          next_id := Suc (next_id s)\<rparr>)
       tid (next_id s) = (Some rec, s2)"
    by (rule refund_lines_Inr)
  note res = refund_lines_proceeds(2-8) [OF c refl, of e]
  have items: "tbl_item (snd (refund_lines e s tid ids)) = map ?inc (tbl_item s)"
    by (simp add: res(6) increase_quantities_closed_form [OF assms(1)])
  have ids: "map i_id (map ?inc (tbl_item s)) = map i_id (tbl_item s)"
    by (induction "tbl_item s") (simp_all add: comp_def)
  have "distinct (map i_id (map ?inc (tbl_item s)))"
    unfolding ids by (rule assms(1))
  moreover have "?inc it \<in> set (map ?inc (tbl_item s))"
    using it by simp
  moreover have "i_id (?inc it) = i_id it" by simp
  ultimately have "item_by_id (map ?inc (tbl_item s)) (i_id it) = Some (?inc it)"
    using item_by_id_member [of "map ?inc (tbl_item s)" "?inc it"] by simp
  then show "item_by_id (tbl_item (snd (refund_lines e s tid ids))) (i_id it) = Some (?inc it)"
    by (simp only: items)
qed

text \<open>
  The theorem at the two-line sale: after the sale 23 Coca Cola are on hand; refunding the
  Coca Cola line puts 24 back on hand.
\<close>

theorem refund_restores_stock_witness:
  "distinct (map i_id (tbl_item sold_two_store)) \<and>
   map (\<lambda>it. (i_id it, i_quantity it)) (tbl_item sold_two_store) = [(0, 23), (1, 10)] \<and>
   item_by_id (tbl_item part_refunded_store) 0 =
     Some \<lparr>i_id = 0, i_price = 299 / 100, i_tax_rate = 7 / 80, i_quantity = 24,
           i_is_active = True\<rparr>"
proof -
  let ?coke = "\<lparr>i_id = 0, i_price = 299 / 100, i_tax_rate = 7 / 80, i_quantity = 23,
           i_is_active = True\<rparr>"
  have d: "distinct (map i_id (tbl_item sold_two_store))"
    by code_simp
  have stock: "map (\<lambda>it. (i_id it, i_quantity it)) (tbl_item sold_two_store) =
      [(0, 23), (1, 10)]"
    by code_simp
  have r1: "fst (refund_lines no_error sold_two_store 2 [3]) =
      Inr \<lparr>rr_refundAmount = 13 / 4,
           rr_originalTransaction = \<lparr>t_id = 2, t_status = Finalized, t_subtotal = 997 / 100,
                                     t_tax = 6979 / 8000, t_total = 86739 / 8000\<rparr>,
           rr_refundTransaction = \<lparr>t_id = 6, t_status = Finalized, t_subtotal = 299 / 100,
                                   t_tax = 13 / 50, t_total = 13 / 4\<rparr>,
           rr_isPartial = True\<rparr>"
    by code_simp
  have coke: "?coke \<in> set (tbl_item sold_two_store)"
    by code_simp
  have "item_by_id (tbl_item part_refunded_store) (i_id ?coke) =
      Some (if no_error (i_id ?coke) then ?coke
            else ?coke\<lparr>i_quantity := i_quantity ?coke +
                   sum_list (map l_quantity
                     (filter (\<lambda>line. l_item_id line = i_id ?coke)
                        (selected_lines sold_two_store 2 [3])))\<rparr>)"
    unfolding part_refunded_store_def
    using refund_restores_stock [OF d r1] coke by blast
  moreover have "(if no_error (i_id ?coke) then ?coke
            else ?coke\<lparr>i_quantity := i_quantity ?coke +
                   sum_list (map l_quantity
                     (filter (\<lambda>line. l_item_id line = i_id ?coke)
                        (selected_lines sold_two_store 2 [3])))\<rparr>) = ?coke\<lparr>i_quantity := 24\<rparr>"
    by code_simp
  ultimately show ?thesis using d stock by simp
qed

section \<open>Finalize is irreversible\<close>

text \<open>
  A successful finalize turns the open transaction into a finalized one, and no later
  finalize of that transaction succeeds: with a positive cash amount it fails with
  InvalidState and leaves the store as it is.
\<close>

theorem finalize_only_once:
  "\<forall>r. fst (finalize e s tid cash) = Inr r \<longrightarrow>
     (\<exists>t. transaction_by_id s tid = Some t \<and> t_status t = Open \<and>
          f_transaction r = t\<lparr>t_status := Finalized\<rparr> \<and>
          transaction_by_id (snd (finalize e s tid cash)) tid = Some (f_transaction r)) \<and>
     (\<forall>e2 cash2. 0 < cash2 \<longrightarrow>
        finalize e2 (snd (finalize e s tid cash)) tid cash2 =
          (Inl InvalidState, snd (finalize e s tid cash)))"
proof (intro allI impI)
  fix r
  assume ok: "fst (finalize e s tid cash) = Inr r"
  let ?s' = "snd (finalize e s tid cash)"
  from ok obtain t where t: "transaction_by_id s tid = Some t" "t_status t = Open"
    "f_transaction r = t\<lparr>t_status := Finalized\<rparr>"
    "tbl_pos_transaction ?s' =
       update_where (\<lambda>t. t_id t = tid) (\<lambda>t. t\<lparr>t_status := Finalized\<rparr>) (tbl_pos_transaction s)"
    by (cases rule: finalize_cases [of cash e s tid]) auto
  have key: "t_id t = tid"
    using t(1) by (rule transaction_by_id_key)
  have "transaction_by_id ?s' tid =
      map_option (\<lambda>t. if t_id t = tid then t\<lparr>t_status := Finalized\<rparr> else t)
        (transaction_by_id s tid)"
    using t(4) by (rule transaction_by_id_updated) simp
  then have after: "transaction_by_id ?s' tid = Some (f_transaction r)"
    using t(1,3) key by simp
  have again: "finalize e2 ?s' tid cash2 = (Inl InvalidState, ?s')" if "0 < cash2" for e2 cash2
    using that after t(3) finalize_fails(3) [of cash2 ?s' tid "f_transaction r" e2] by simp
  show "(\<exists>t. transaction_by_id s tid = Some t \<and> t_status t = Open \<and>
          f_transaction r = t\<lparr>t_status := Finalized\<rparr> \<and>
          transaction_by_id ?s' tid = Some (f_transaction r)) \<and>
     (\<forall>e2 cash2. 0 < cash2 \<longrightarrow> finalize e2 ?s' tid cash2 = (Inl InvalidState, ?s'))"
    using t(1,2,3) after again by blast
qed

text \<open>
  The theorem at the sale of one Coca Cola: once paid, transaction 2 is finalized and a
  second payment of 10.00 is refused.
\<close>

theorem finalize_only_once_witness:
  "transaction_by_id sold_store 2 =
     Some \<lparr>t_id = 2, t_status = Finalized, t_subtotal = 299 / 100, t_tax = 2093 / 8000,
           t_total = 26013 / 8000\<rparr> \<and>
   finalize no_error sold_store 2 10 = (Inl InvalidState, sold_store)"
proof -
  have sale: "fst (finalize no_error one_line_store 2 5) =
      Inr \<lparr>f_transaction = \<lparr>t_id = 2, t_status = Finalized, t_subtotal = 299 / 100,
                            t_tax = 2093 / 8000, t_total = 26013 / 8000\<rparr>,
           f_payment = \<lparr>p_id = 4, p_transaction_id = 2, p_method = ''cash'', p_amount = 5\<rparr>,
           f_change = 7 / 4\<rparr>"
    by code_simp
  from finalize_only_once [of no_error one_line_store 2 5] sale
  have "transaction_by_id sold_store 2 =
      Some \<lparr>t_id = 2, t_status = Finalized, t_subtotal = 299 / 100, t_tax = 2093 / 8000,
            t_total = 26013 / 8000\<rparr>"
    and "\<forall>e2 cash2. 0 < cash2 \<longrightarrow>
      finalize e2 sold_store 2 cash2 = (Inl InvalidState, sold_store)"
    unfolding sold_store_def by auto
  then show ?thesis by simp
qed

section \<open>The handlers keep the datastore constraints\<close>

lemma createTransaction_store_ok:
  assumes "store_ok s"
  shows "store_ok (snd (createTransaction s))"
proof -
  from assms have "\<forall>k \<in> set (map t_id (tbl_pos_transaction s)). k < next_id s"
    by (simp add: store_ok_alt)
  then have "next_id s \<notin> set (map t_id (tbl_pos_transaction s))"
    by auto
  then show ?thesis
    using assms unfolding store_ok_alt
    by (auto simp: createTransaction_def Let_def less_Suc_eq)
qed

lemma addLine_store_ok:
  assumes wf: "store_ok s"
  shows "store_ok (snd (addLine s tid bc qo))"
proof (cases "bc \<noteq> [] \<and> 0 < (case qo of None \<Rightarrow> 1 | Some n \<Rightarrow> n)")
  case False
  then have "snd (addLine s tid bc qo) = s"
    by (auto simp: addLine_def Let_def)
  then show ?thesis using wf by simp
next
  case pre: True
  show ?thesis
  proof (cases "single (filter (\<lambda>b. b_barcode b = trim bc) (tbl_item_barcode s))")
    case None
    then have "snd (addLine s tid bc qo) = s"
      using pre by (simp add: addLine_def Let_def)
    then show ?thesis using wf by simp
  next
    case b: (Some b)
    show ?thesis
    proof (cases "item_by_id (tbl_item s) (b_item_id b)")
      case None
      then have "snd (addLine s tid bc qo) = s"
        using pre b by (simp add: addLine_def Let_def)
      then show ?thesis using wf by simp
    next
      case item: (Some item)
      show ?thesis
      proof (cases "i_is_active item \<and> tid \<in> set (map t_id (tbl_pos_transaction s))")
        case False
        then have "snd (addLine s tid bc qo) = s"
          using pre b item by (auto simp: addLine_def Let_def)
        then show ?thesis using wf by simp
      next
        case True
        then obtain t where t: "transaction_by_id s tid = Some t"
          using store_ok_known_transaction [OF wf] by blast
        define line where "line = \<lparr>l_id = next_id s, l_transaction_id = tid,
            l_item_id = b_item_id b,
            l_quantity = (case qo of None \<Rightarrow> 1 | Some n \<Rightarrow> n), l_unit_price = i_price item,
            l_tax_rate = i_tax_rate item,
            l_line_total = i_price item * of_int (case qo of None \<Rightarrow> 1 | Some n \<Rightarrow> n) +
              i_price item * of_int (case qo of None \<Rightarrow> 1 | Some n \<Rightarrow> n) * i_tax_rate item,
            l_refunded_by = None\<rparr>"
        define upd where "upd = (\<lambda>t :: pos_transaction.
            t\<lparr>t_subtotal := sum_list (map lineSubtotal (lines_of s tid @ [line])),
              t_tax := sum_list (map lineTax (lines_of s tid @ [line])),
              t_total := sum_list (map lineSubtotal (lines_of s tid @ [line])) +
                         sum_list (map lineTax (lines_of s tid @ [line]))\<rparr>)"
        have eq: "addLine s tid bc qo =
            (Inr \<lparr>a_line = line, a_transaction = upd t\<rparr>,
             s\<lparr>tbl_transaction_line := tbl_transaction_line s @ [line],
               next_id := Suc (next_id s),
               tbl_pos_transaction :=
                 update_where (\<lambda>t. t_id t = tid) upd (tbl_pos_transaction s)\<rparr>)"
          using pre b item True t line_def upd_def by (intro addLine_succeeds) simp_all
        have keep: "map t_id (update_where (\<lambda>t. t_id t = tid) upd (tbl_pos_transaction s)) =
            map t_id (tbl_pos_transaction s)"
          by (rule map_key_update_where) (simp add: upd_def)
        have fresh: "next_id s \<notin> set (map l_id (tbl_transaction_line s))"
          using wf by (auto simp: store_ok_alt)
        have l: "l_id line = next_id s" "l_transaction_id line = tid"
          by (simp_all add: line_def)
        show ?thesis
          using wf True fresh unfolding store_ok_alt
          by (auto simp: eq keep l less_Suc_eq)
      qed
    qed
  qed
qed

lemma finalize_store_ok:
  assumes wf: "store_ok s"
  shows "store_ok (snd (finalize e s tid cash))"
proof (cases rule: finalize_cases [of cash e s tid])
  case (paid t)
  have keep: "map t_id (update_where (\<lambda>t. t_id t = tid) (\<lambda>t. t\<lparr>t_status := Finalized\<rparr>)
        (tbl_pos_transaction s)) = map t_id (tbl_pos_transaction s)"
    by (rule map_key_update_where) simp
  show ?thesis
    using wf unfolding store_ok_alt
    by (auto simp: paid(5) keep less_Suc_eq)
qed (use wf in simp_all)

lemma refund_lines_store_ok_always:
  assumes wf: "store_ok s"
  shows "store_ok (snd (refund_lines e s tid ids))"
proof (cases rule: refund_lines_cases [of e s tid ids])
  case (failed err)
  then show ?thesis using wf by simp
next
  case (broken s2)
  let ?s1 = "s\<lparr>tbl_pos_transaction := tbl_pos_transaction s @ [reversal_of s tid ids],
          next_id := Suc (next_id s)\<rparr>"
  have known: "tid \<in> set (map r_original_tx (tbl_refund ?s1))"
    by (rule ccontr) (use broken(3) get_or_create_refund_new [of tid ?s1 "next_id s"] in simp)
  then have "tid \<in> set (map r_original_tx (tbl_refund s))"
    by simp
  then obtain x where "single (filter (\<lambda>r. r_original_tx r = tid) (tbl_refund s)) = Some x"
    using store_ok_known_refund [OF wf] by blast
  then have "get_or_create_refund ?s1 tid (next_id s) = (Some x, ?s1)"
    using known by (simp add: get_or_create_refund_existing)
  with broken(3) show ?thesis by simp
next
  case (refunded r)
  with wf show ?thesis by (rule refund_lines_store_ok)
qed

text \<open>
  Whatever their outcome, the four handlers keep the constraints of the datastore: unique
  transaction and line ids, at most one refund row per original transaction, ids below the
  counter, and lines that reference an existing transaction.
\<close>

theorem handlers_keep_store_ok:
  assumes "store_ok s"
  shows "store_ok (snd (createTransaction s)) \<and>
     store_ok (snd (addLine s tid bc qo)) \<and>
     store_ok (snd (finalize e s tid cash)) \<and>
     store_ok (snd (refund_lines e s tid ids))"
  using assms createTransaction_store_ok addLine_store_ok finalize_store_ok
    refund_lines_store_ok_always by blast

text \<open>
  The theorem along the two-line sale, from the seeded catalogue to the partial refund.
\<close>

theorem handlers_keep_store_ok_witness:
  "store_ok seed_store \<and> store_ok opened_store \<and> store_ok one_line_store \<and>
   store_ok two_line_store \<and> store_ok sold_two_store \<and> store_ok part_refunded_store"
proof -
  have s0: "store_ok seed_store"
    by code_simp
  have s1: "store_ok opened_store"
    unfolding opened_store_def using handlers_keep_store_ok [OF s0] by blast
  have s2: "store_ok one_line_store"
    unfolding one_line_store_def using handlers_keep_store_ok [OF s1] by blast
  have s3: "store_ok two_line_store"
    unfolding two_line_store_def using handlers_keep_store_ok [OF s2] by blast
  have s4: "store_ok sold_two_store"
    unfolding sold_two_store_def using handlers_keep_store_ok [OF s3] by blast
  have s5: "store_ok part_refunded_store"
    unfolding part_refunded_store_def using handlers_keep_store_ok [OF s4] by blast
  from s0 s1 s2 s3 s4 s5 show ?thesis by simp
qed

end
